theory Spec2Isabelle
  imports Main "HOL-Library.AList"
begin

section \<open>JavaScript values and objects\<close>

text \<open>
  The server handles JSON values: user and message records read from the JSON files, and
  the payloads of socket events. The fields the handlers inspect hold primitives, so a
  value is one of the JavaScript primitives; numbers are the integer-valued ones.
  Strict equality \<open>===\<close> on these primitives is equality of the model.
\<close>

datatype jsval = JUndefined | JNull | JBool bool | JNum int | JStr string

text \<open>An object is the list of its own properties in insertion order.\<close>

type_synonym obj = "(string \<times> jsval) list"

text \<open>\<open>o[key]\<close>: reading a property that is absent gives \<open>undefined\<close>.\<close>

definition get_field :: "obj \<Rightarrow> string \<Rightarrow> jsval" where
  "get_field ob k = (case map_of ob k of None \<Rightarrow> JUndefined | Some v \<Rightarrow> v)"

text \<open>Truthiness, as tested by \<open>if (v)\<close>, \<open>v ? a : b\<close> and \<open>v || d\<close>.\<close>

fun truthy :: "jsval \<Rightarrow> bool" where
  "truthy JUndefined = False"
| "truthy JNull = False"
| "truthy (JBool b) = b"
| "truthy (JNum n) = (n \<noteq> 0)"
| "truthy (JStr s) = (s \<noteq> [])"

text \<open>\<open>String(v)\<close>. Decimal digits of a natural number first.\<close>

fun digits10 :: "nat \<Rightarrow> string" where
  "digits10 n =
     (if n < 10 then [''0123456789'' ! n]
      else digits10 (n div 10) @ [''0123456789'' ! (n mod 10)])"

declare digits10.simps [simp del]

fun js_String :: "jsval \<Rightarrow> string" where
  "js_String JUndefined = ''undefined''"
| "js_String JNull = ''null''"
| "js_String (JBool b) = (if b then ''true'' else ''false'')"
| "js_String (JNum n) = (if n < 0 then CHR ''-'' # digits10 (nat (- n)) else digits10 (nat n))"
| "js_String (JStr s) = s"

text \<open>
  Object spread \<open>{...a, ...b}\<close>: the properties of \<open>b\<close> override those of \<open>a\<close> in
  place, new ones are appended.
\<close>

definition spread :: "obj \<Rightarrow> obj \<Rightarrow> obj" where
  "spread a b = fold (\<lambda>(k, v). AList.update k v) b a"

text \<open>
  \<open>const { password, ...userWithoutPass } = user\<close>: the rest object has every own
  property of \<open>user\<close> but \<open>password\<close>.
\<close>

definition without_password :: "obj \<Rightarrow> obj" where
  "without_password user = filter (\<lambda>(k, v). k \<noteq> ''password'') user"

text \<open>\<open>Array.prototype.findIndex\<close>; JavaScript's \<open>-1\<close> is \<open>None\<close>.\<close>

fun findIndex :: "('a \<Rightarrow> bool) \<Rightarrow> 'a list \<Rightarrow> nat option" where
  "findIndex P [] = None"
| "findIndex P (x # xs) = (if P x then Some 0 else map_option Suc (findIndex P xs))"


section \<open>The JSON file store (class JSONDB)\<close>

text \<open>
  A store is the content of its JSON file: an array of objects. \<open>write\<close> followed by
  \<open>read\<close> is a round trip through \<open>JSON.stringify\<close> and \<open>JSON.parse\<close>, which drops
  the properties whose value is \<open>undefined\<close>.
\<close>

definition json_obj :: "obj \<Rightarrow> obj" where
  "json_obj ob = filter (\<lambda>(k, v). v \<noteq> JUndefined) ob"

definition JSONDB_write :: "obj list \<Rightarrow> obj list" where
  "JSONDB_write data = map json_obj data"

text \<open>
  \<open>findOne(query)\<close>: the first item with \<open>item[key] === query[key]\<close> for every key of
  the query; \<open>None\<close> is \<open>undefined\<close>.
\<close>

definition findOne :: "obj \<Rightarrow> obj list \<Rightarrow> obj option" where
  "findOne query data = find (\<lambda>item. list_all (\<lambda>(key, v). get_field item key = v) query) data"

text \<open>
  \<open>update(id, updates)\<close>: returns the new file content and the updated item
  (\<open>None\<close> for \<open>null\<close>, in which case nothing is written).
\<close>

definition JSONDB_update :: "jsval \<Rightarrow> obj \<Rightarrow> obj list \<Rightarrow> obj list \<times> obj option" where
  "JSONDB_update id' updates data =
     (case findIndex (\<lambda>item. get_field item ''_id'' = id') data of
        Some index \<Rightarrow>
          let item' = spread (data ! index) updates
          in (JSONDB_write (data[index := item']), Some item')
      | None \<Rightarrow> (data, None))"

text \<open>\<open>delete(id)\<close>: returns the new file content and whether something was removed.\<close>

definition JSONDB_delete :: "jsval \<Rightarrow> obj list \<Rightarrow> obj list \<times> bool" where
  "JSONDB_delete id' data =
     (let data' = filter (\<lambda>item. get_field item ''_id'' \<noteq> id') data
      in if length data' \<noteq> length data then (JSONDB_write data', True) else (data, False))"


section \<open>Connections\<close>

text \<open>
  A socket of the transport: its id, the three fields the handlers keep in
  \<open>socket.data\<close> (\<open>None\<close> and \<open>JUndefined\<close> stand for a field never assigned), and
  \<open>socket.rooms\<close>, a set in insertion order that starts with the socket's own id.
\<close>

record socket =
  sid :: string
  data_user :: "obj option"
  data_userId :: "string option"
  data_currentChannel :: jsval
  rooms :: "jsval list"


section \<open>Room membership: getUniqueUsers\<close>

text \<open>
  \<open>sockets.map(s => s.data.user).filter(u => u)\<close>, then the filter that keeps the user
  at \<open>index\<close> when \<open>index\<close> is the first position whose \<open>String(_id)\<close> is the same.
\<close>

definition same_id :: "obj \<Rightarrow> obj \<Rightarrow> bool" where
  "same_id user t = (js_String (get_field t ''_id'') = js_String (get_field user ''_id''))"

definition getUniqueUsers :: "socket list \<Rightarrow> obj list" where
  "getUniqueUsers sockets =
     (let users = List.map_filter data_user sockets;
          unique = filter (\<lambda>(user, index). Some index = findIndex (same_id user) users)
                     (zip users [0..<length users])
      in map fst unique)"


section \<open>Server state\<close>

text \<open>
  What a handler sends through the transport: \<open>io.emit\<close> (to every connection),
  \<open>socket.emit\<close> (to one connection) and \<open>io.to(room).emit\<close>, with the event's name
  and its payload.
\<close>

datatype target = ToAll | ToSocket string | ToRoom jsval

datatype payload = Users "obj list" | Val jsval | Item "obj option"

datatype emission = Emit target string payload

text \<open>
  The two presence operations, recorded in a history that the program does not have:
  an attach is an execution of the increment at lines 189-190, a detach an execution of
  the decrement block at lines 180-186 or 300-306.
\<close>

datatype presence_op = Attach string | Detach string

text \<open>
  The state of the server process: the two JSON files the socket handlers use, the
  \<open>presenceCounts\<close> map (a JavaScript \<open>Map\<close>, in insertion order), the live sockets of
  the transport in connection order, the transport's room rosters (for each room the ids
  of the sockets in it, in the order in which they joined), the rooms whose
  post-disconnect timer has not fired yet, and two observation fields: the emissions of
  the event being handled and the history of presence operations.
\<close>

record state =
  users :: "obj list"
  messages :: "obj list"
  presenceCounts :: "(string \<times> int) list"
  sockets :: "socket list"
  rosters :: "(jsval \<times> string list) list"
  pending :: "jsval list"
  outbox :: "emission list"
  ops :: "presence_op list"

definition emit :: "target \<Rightarrow> string \<Rightarrow> payload \<Rightarrow> state \<Rightarrow> state" where
  "emit tg ev pl st = st\<lparr>outbox := outbox st @ [Emit tg ev pl]\<rparr>"

text \<open>\<open>presenceCounts.get(id) || 0\<close>\<close>

definition get_or_0 :: "(string \<times> int) list \<Rightarrow> string \<Rightarrow> int" where
  "get_or_0 pc k = (case map_of pc k of None \<Rightarrow> 0 | Some c \<Rightarrow> if c = 0 then 0 else c)"

text \<open>Lines 140-153.\<close>

definition getOnlineUsersPublic :: "state \<Rightarrow> obj list" where
  "getOnlineUsersPublic st =
     (let userIds = map fst (filter (\<lambda>(userId, count). count > 0) (presenceCounts st))
      in List.map_filter
           (\<lambda>userId. case findOne [(''_id'', JStr userId)] (users st) of
                        None \<Rightarrow> None
                      | Some user \<Rightarrow> Some (without_password user))
           userIds)"

text \<open>
  The transport, which is not part of the repository, is modelled by what the handlers
  use of it. \<open>socket.join\<close> adds a room to the socket's rooms and the socket's id at
  the end of the room's roster, unless it is there already; \<open>socket.leave\<close> removes
  both; \<open>io.in(room).fetchSockets()\<close> returns the live sockets of the room's roster,
  in the order of the roster.
\<close>

definition find_socket :: "string \<Rightarrow> state \<Rightarrow> socket option" where
  "find_socket i st = find (\<lambda>s. sid s = i) (sockets st)"

definition set_socket :: "string \<Rightarrow> (socket \<Rightarrow> socket) \<Rightarrow> state \<Rightarrow> state" where
  "set_socket i f st = st\<lparr>sockets := map (\<lambda>s. if sid s = i then f s else s) (sockets st)\<rparr>"

definition roster :: "jsval \<Rightarrow> state \<Rightarrow> string list" where
  "roster room st = (case map_of (rosters st) room of None \<Rightarrow> [] | Some ids \<Rightarrow> ids)"

definition fetchSockets :: "jsval \<Rightarrow> state \<Rightarrow> socket list" where
  "fetchSockets room st = List.map_filter (\<lambda>i. find_socket i st) (roster room st)"

definition socket_leave :: "string \<Rightarrow> jsval \<Rightarrow> state \<Rightarrow> state" where
  "socket_leave i room st =
     set_socket i (\<lambda>s. s\<lparr>rooms := removeAll room (rooms s)\<rparr>)
       (st\<lparr>rosters := AList.update room (removeAll i (roster room st)) (rosters st)\<rparr>)"

definition socket_join :: "string \<Rightarrow> jsval \<Rightarrow> state \<Rightarrow> state" where
  "socket_join i room st =
     set_socket i (\<lambda>s. if room \<in> set (rooms s) then s else s\<lparr>rooms := rooms s @ [room]\<rparr>)
       (st\<lparr>rosters := (if i \<in> set (roster room st) then rosters st
                         else AList.update room (roster room st @ [i]) (rosters st))\<rparr>)"

text \<open>\<open>io.to(room).emit('room_users', getUniqueUsers(await io.in(room).fetchSockets()))\<close>\<close>

definition emit_room_users :: "jsval \<Rightarrow> state \<Rightarrow> state" where
  "emit_room_users room st =
     emit (ToRoom room) ''room_users'' (Users (getUniqueUsers (fetchSockets room st))) st"


section \<open>The socket handlers\<close>

text \<open>
  The decrement block, which the source has twice (lines 180-186 in \<open>join\<close>, lines
  300-306 in \<open>disconnect\<close>), with the same text but for the variable names.
\<close>

definition presence_decrement :: "string \<Rightarrow> state \<Rightarrow> state" where
  "presence_decrement prevUserId st =
     (let prevCount = get_or_0 (presenceCounts st) prevUserId - 1;
          st' = st\<lparr>ops := ops st @ [Detach prevUserId]\<rparr>
      in if prevCount \<le> 0
         then st'\<lparr>presenceCounts := AList.delete prevUserId (presenceCounts st'),
                  users := fst (JSONDB_update (JStr prevUserId) [(''status'', JStr ''offline'')]
                                  (users st'))\<rparr>
         else st'\<lparr>presenceCounts := AList.update prevUserId prevCount (presenceCounts st')\<rparr>)"

text \<open>
  \<open>socket.data.userId ? String(socket.data.userId) : null\<close>: the user id the connection
  holds, if it holds a truthy one.
\<close>

definition held_userId :: "socket \<Rightarrow> string option" where
  "held_userId s =
     (case data_userId s of None \<Rightarrow> None | Some v \<Rightarrow> if truthy (JStr v) then Some v else None)"

text \<open>Lines 176-197 of the \<open>join\<close> handler, for the socket with id \<open>i\<close>.\<close>

definition join_presence :: "string \<Rightarrow> socket \<Rightarrow> jsval \<Rightarrow> state \<Rightarrow> state" where
  "join_presence i socket userId st =
     (let nextUserId = js_String userId;
          prevUserId = held_userId socket
      in if prevUserId \<noteq> Some nextUserId then
           let st1 = (case prevUserId of None \<Rightarrow> st | Some prev \<Rightarrow> presence_decrement prev st);
               nextCount = get_or_0 (presenceCounts st1) nextUserId + 1;
               st2 = st1\<lparr>presenceCounts := AList.update nextUserId nextCount (presenceCounts st1),
                         ops := ops st1 @ [Attach nextUserId]\<rparr>;
               st3 = set_socket i (\<lambda>s. s\<lparr>data_userId := Some nextUserId\<rparr>) st2;
               st4 = (if nextCount = 1
                      then st3\<lparr>users := fst (JSONDB_update (JStr nextUserId)
                                                [(''status'', JStr ''online'')] (users st3))\<rparr>
                      else st3)
           in emit ToAll ''online_users'' (Users (getOnlineUsersPublic st4)) st4
         else st)"

text \<open>
  Lines 201-209: the loop over the snapshot \<open>Array.from(socket.rooms)\<close>. The handler
  awaits the transport here; the awaited calls are taken to complete before another
  event is handled.
\<close>

fun leave_rooms :: "string \<Rightarrow> jsval list \<Rightarrow> state \<Rightarrow> state" where
  "leave_rooms i [] st = st"
| "leave_rooms i (room # rs) st =
     (if room \<noteq> JStr i
      then leave_rooms i rs (emit_room_users room (socket_leave i room st))
      else leave_rooms i rs st)"

text \<open>
  The \<open>join\<close> handler, lines 171-218. The payload is an object; \<open>userId\<close> and
  \<open>channelId\<close> are its two properties (\<open>JUndefined\<close> when absent).
\<close>

record join_payload =
  userId :: jsval
  channelId :: jsval

definition on_join :: "socket \<Rightarrow> join_payload \<Rightarrow> state \<Rightarrow> state" where
  "on_join socket p st =
     (let i = sid socket in
      case findOne [(''_id'', userId p)] (users st) of
        None \<Rightarrow> st
      | Some user \<Rightarrow>
          let st1 = set_socket i (\<lambda>s. s\<lparr>data_user := Some user\<rparr>) st;
              st2 = join_presence i socket (userId p) st1;
              st3 = set_socket i (\<lambda>s. s\<lparr>data_currentChannel := channelId p\<rparr>) st2;
              st4 = leave_rooms i (rooms socket) st3
          in if truthy (channelId p)
             then emit_room_users (channelId p) (socket_join i (channelId p) st4)
             else st4)"

text \<open>
  The \<open>disconnect\<close> handler, lines 296-315, up to the timer: the presence part, and the
  room to recompute once the 100 ms have passed.
\<close>

definition on_disconnect :: "socket \<Rightarrow> state \<Rightarrow> state" where
  "on_disconnect socket st =
     (let st1 = (case held_userId socket of
                   None \<Rightarrow> st
                 | Some id' \<Rightarrow>
                     let st' = presence_decrement id' st
                     in emit ToAll ''online_users'' (Users (getOnlineUsersPublic st')) st')
      in if truthy (data_currentChannel socket)
         then st1\<lparr>pending := pending st1 @ [data_currentChannel socket]\<rparr>
         else st1)"

text \<open>Lines 311-313, run when the timer of the oldest pending disconnect fires.\<close>

definition on_grace_elapsed :: "state \<Rightarrow> state" where
  "on_grace_elapsed st =
     (case pending st of
        [] \<Rightarrow> st
      | room # rest \<Rightarrow> emit_room_users room (st\<lparr>pending := rest\<rparr>))"

text \<open>Line 169, run when the transport reports a new connection.\<close>

definition on_connection :: "string \<Rightarrow> state \<Rightarrow> state" where
  "on_connection i st =
     emit (ToSocket i) ''online_users'' (Users (getOnlineUsersPublic st)) st"

text \<open>Lines 249-255 (and lines 165-171 of the older server.js, where the field is \<open>socket.user\<close>).\<close>

definition on_delete_message :: "socket \<Rightarrow> jsval \<Rightarrow> state \<Rightarrow> state" where
  "on_delete_message socket msgId st =
     (case findOne [(''_id'', msgId)] (messages st) of
        None \<Rightarrow> st
      | Some msg \<Rightarrow>
          (case data_user socket of
             None \<Rightarrow> st
           | Some user \<Rightarrow>
               if get_field user ''_id'' = get_field msg ''userId''
               then emit (ToRoom (get_field msg ''channelId'')) ''message_deleted'' (Val msgId)
                      (st\<lparr>messages := fst (JSONDB_delete msgId (messages st))\<rparr>)
               else st))"

text \<open>Lines 257-264.\<close>

definition on_edit_message :: "socket \<Rightarrow> jsval \<Rightarrow> jsval \<Rightarrow> state \<Rightarrow> state" where
  "on_edit_message socket msgId newText st =
     (case findOne [(''_id'', msgId)] (messages st) of
        None \<Rightarrow> st
      | Some msg \<Rightarrow>
          (case data_user socket of
             None \<Rightarrow> st
           | Some user \<Rightarrow>
               if get_field user ''_id'' = get_field msg ''userId''
               then
                 let st' = st\<lparr>messages := fst (JSONDB_update msgId
                                [(''text'', newText), (''isEdited'', JBool True)] (messages st))\<rparr>;
                     updatedMsg = findOne [(''_id'', msgId)] (messages st')
                 in emit (ToRoom (get_field msg ''channelId'')) ''message_updated''
                      (Item updatedMsg) st'
               else st))"


section \<open>Events\<close>

text \<open>
  The events the transport delivers. A socket id is given to one connection only, a
  handler runs only for a live socket, a new socket is in the room named by its own id,
  and the transport has taken a socket out of its list of sockets and out of every
  roster when it delivers \<open>disconnect\<close>. Each event starts with an empty
  \<open>outbox\<close>, so that after a step the outbox holds what that event emitted.
\<close>

datatype event =
    Connect string
  | Join string join_payload
  | Disconnect string
  | GraceElapsed
  | DeleteMessage string jsval
  | EditMessage string jsval jsval

definition new_socket :: "string \<Rightarrow> socket" where
  "new_socket i = \<lparr>sid = i, data_user = None, data_userId = None,
                   data_currentChannel = JUndefined, rooms = [JStr i]\<rparr>"

fun handle :: "event \<Rightarrow> state \<Rightarrow> state" where
  "handle (Connect i) st =
     (case find_socket i st of
        Some s \<Rightarrow> st
      | None \<Rightarrow>
          on_connection i
            (st\<lparr>sockets := sockets st @ [new_socket i],
                rosters := AList.update (JStr i) (roster (JStr i) st @ [i]) (rosters st)\<rparr>))"
| "handle (Join i p) st =
     (case find_socket i st of None \<Rightarrow> st | Some socket \<Rightarrow> on_join socket p st)"
| "handle (Disconnect i) st =
     (case find_socket i st of
        None \<Rightarrow> st
      | Some socket \<Rightarrow>
          on_disconnect socket
            (st\<lparr>sockets := filter (\<lambda>s. sid s \<noteq> i) (sockets st),
                rosters := map (\<lambda>(room, ids). (room, removeAll i ids)) (rosters st)\<rparr>))"
| "handle GraceElapsed st = on_grace_elapsed st"
| "handle (DeleteMessage i msgId) st =
     (case find_socket i st of None \<Rightarrow> st | Some socket \<Rightarrow> on_delete_message socket msgId st)"
| "handle (EditMessage i msgId newText) st =
     (case find_socket i st of None \<Rightarrow> st | Some socket \<Rightarrow> on_edit_message socket msgId newText st)"

definition step :: "state \<Rightarrow> event \<Rightarrow> state" where
  "step st e = handle e (st\<lparr>outbox := []\<rparr>)"

definition run :: "state \<Rightarrow> event list \<Rightarrow> state" where
  "run st es = foldl step st es"

text \<open>The process at start: the two files as found, nothing else.\<close>

definition init :: "obj list \<Rightarrow> obj list \<Rightarrow> state" where
  "init us ms = \<lparr>users = us, messages = ms, presenceCounts = [], sockets = [],
                 rosters = [], pending = [], outbox = [], ops = []\<rparr>"


section \<open>Auxiliary notions for the properties\<close>

text \<open>The positions that the filter of \<open>getUniqueUsers\<close> keeps.\<close>

definition first_positions :: "obj list \<Rightarrow> nat list" where
  "first_positions us =
     filter (\<lambda>i. Some i = findIndex (same_id (us ! i)) us) [0..<length us]"


text \<open>
  An \<open>online_users\<close> broadcast to every connection is among the emissions of the event
  just handled.
\<close>

definition broadcast_online :: "state \<Rightarrow> bool" where
  "broadcast_online st =
     list_ex (\<lambda>e. case e of Emit tg ev pl \<Rightarrow> tg = ToAll \<and> ev = ''online_users'') (outbox st)"

text \<open>
  An emission that is not \<open>online_users\<close>, or whose payload is a list of profiles none
  of which has a \<open>password\<close> property.
\<close>

definition public_online_users :: "emission \<Rightarrow> bool" where
  "public_online_users e =
     (case e of Emit tg ev pl \<Rightarrow>
        ev = ''online_users'' \<longrightarrow>
          (case pl of Users ps \<Rightarrow> list_all (\<lambda>p. ''password'' \<notin> fst ` set p) ps
                    | _ \<Rightarrow> False))"

text \<open>Every emission of a list is a \<open>room_users\<close> emission to a room.\<close>

definition room_users_only :: "emission list \<Rightarrow> bool" where
  "room_users_only out =
     list_all (\<lambda>e. case e of Emit tg ev pl \<Rightarrow>
                      (case tg of ToRoom r \<Rightarrow> ev = ''room_users'' | _ \<Rightarrow> False)) out"

text \<open>
  Between two presence tables some user's count went from 0 to 1 or from 1 to 0. Only
  the keys of the two tables can have a count other than 0.
\<close>

definition crossing :: "(string \<times> int) list \<Rightarrow> (string \<times> int) list \<Rightarrow> bool" where
  "crossing pc pc' =
     list_ex (\<lambda>u. (get_or_0 pc u = 0 \<and> get_or_0 pc' u = 1)
                 \<or> (get_or_0 pc u = 1 \<and> get_or_0 pc' u = 0))
       (map fst pc @ map fst pc')"

text \<open>The number of live connections that hold user id \<open>u\<close>.\<close>

definition holders :: "string \<Rightarrow> state \<Rightarrow> nat" where
  "holders u st = count_list (map held_userId (sockets st)) (Some u)"

text \<open>The number of attaches of \<open>u\<close> minus the number of its detaches, in the history.\<close>

definition balance :: "string \<Rightarrow> state \<Rightarrow> int" where
  "balance u st = int (count_list (ops st) (Attach u)) - int (count_list (ops st) (Detach u))"

text \<open>
  What holds of every state the server reaches: socket ids are unique, the counts in the
  table are at least 1, a user's count is at least the number of connections that hold
  the user, and it is the balance of the history.
\<close>

definition consistent :: "state \<Rightarrow> bool" where
  "consistent st \<longleftrightarrow>
     distinct (map sid (sockets st))
     \<and> (\<forall>kc\<in>set (presenceCounts st). 1 \<le> snd kc)
     \<and> (\<forall>u. int (holders u st) \<le> get_or_0 (presenceCounts st) u)
     \<and> (\<forall>u. get_or_0 (presenceCounts st) u = balance u st)"

text \<open>The state after the first half of lines 179-187: the held user, if any, detached.\<close>

definition after_detach :: "socket \<Rightarrow> state \<Rightarrow> state" where
  "after_detach socket st =
     (case held_userId socket of None \<Rightarrow> st | Some prev \<Rightarrow> presence_decrement prev st)"


section \<open>Example data\<close>

definition ex_alice :: obj where
  "ex_alice = [(''_id'', JStr ''u1''), (''username'', JStr ''alice''),
               (''password'', JStr ''$2a$10$hashA''), (''status'', JStr ''offline'')]"

definition ex_bob :: obj where
  "ex_bob = [(''_id'', JStr ''u2''), (''username'', JStr ''bob''),
             (''password'', JStr ''$2a$10$hashB''), (''status'', JStr ''offline'')]"

definition ex_users :: "obj list" where
  "ex_users = [ex_alice, ex_bob]"

definition ex_msg :: obj where
  "ex_msg = [(''_id'', JStr ''m1''), (''text'', JStr ''hello''), (''userId'', JStr ''u1''),
             (''username'', JStr ''alice''), (''channelId'', JStr ''general'')]"

definition ex_join :: "string \<Rightarrow> string \<Rightarrow> join_payload" where
  "ex_join u c = \<lparr>userId = JStr u, channelId = JStr c\<rparr>"

definition ex_start :: state where
  "ex_start = init ex_users [ex_msg]"

definition ex_conn :: "string \<Rightarrow> obj option \<Rightarrow> jsval list \<Rightarrow> socket" where
  "ex_conn i u rs = \<lparr>sid = i, data_user = u, data_userId = None,
                     data_currentChannel = JUndefined, rooms = rs\<rparr>"


text \<open>
  Alice connects and joins \<open>general\<close>; then she opens a second tab; then the first
  tab disconnects.
\<close>

definition ex_one_tab :: state where
  "ex_one_tab = run ex_start [Connect ''s1'', Join ''s1'' (ex_join ''u1'' ''general'')]"

definition ex_two_tabs :: state where
  "ex_two_tabs = run ex_start [Connect ''s1'', Join ''s1'' (ex_join ''u1'' ''general''),
                               Connect ''s2'', Join ''s2'' (ex_join ''u1'' ''general'')]"

definition ex_tab_closed :: state where
  "ex_tab_closed = run ex_start [Connect ''s1'', Join ''s1'' (ex_join ''u1'' ''general''),
                                 Connect ''s2'', Join ''s2'' (ex_join ''u1'' ''general''),
                                 Disconnect ''s1'']"


text \<open>A second connection is open and has not joined yet.\<close>

definition ex_second_tab :: state where
  "ex_second_tab = run ex_start [Connect ''s1'', Join ''s1'' (ex_join ''u1'' ''general''),
                                 Connect ''s2'']"

definition ex_connected :: state where
  "ex_connected = run ex_start [Connect ''s1'']"

text \<open>Alice's record once her first connection has joined.\<close>

definition ex_alice_online :: obj where
  "ex_alice_online = [(''_id'', JStr ''u1''), (''username'', JStr ''alice''),
                      (''password'', JStr ''$2a$10$hashA''), (''status'', JStr ''online'')]"


section \<open>Properties of getUniqueUsers\<close>

lemma findIndex_Some_iff:
  "findIndex P xs = Some i \<longleftrightarrow> i < length xs \<and> P (xs ! i) \<and> (\<forall>j<i. \<not> P (xs ! j))"
proof (induction xs arbitrary: i)
  case Nil
  show ?case by simp
next
  case (Cons x xs)
  show ?case
  proof (cases "P x")
    case True
    then show ?thesis by (cases i) auto
  next
    case False
    show ?thesis
    proof (cases i)
      case 0
      with False show ?thesis by auto
    next
      case (Suc k)
      have "(\<forall>j<Suc k. \<not> P ((x # xs) ! j)) \<longleftrightarrow> (\<forall>j<k. \<not> P (xs ! j))"
        using False by (auto simp: less_Suc_eq_0_disj)
      with False Suc Cons.IH [of k] show ?thesis by auto
    qed
  qed
qed

lemma findIndex_None_iff: "findIndex P xs = None \<longleftrightarrow> (\<forall>x\<in>set xs. \<not> P x)"
  by (induction xs) auto

lemma findIndex_find: "findIndex P xs = Some i \<Longrightarrow> find P xs = Some (xs ! i)"
  by (induction xs arbitrary: i) (auto split: if_splits)

lemma zip_upt_nth: "zip xs [0..<length xs] = map (\<lambda>i. (xs ! i, i)) [0..<length xs]"
  by (rule nth_equalityI) auto

lemma getUniqueUsers_positions:
  "getUniqueUsers socks =
     map (\<lambda>i. List.map_filter data_user socks ! i)
       (first_positions (List.map_filter data_user socks))"
  by (simp add: getUniqueUsers_def first_positions_def Let_def zip_upt_nth filter_map comp_def)

lemma first_positions_distinct: "distinct (first_positions us)"
  by (simp add: first_positions_def)

lemma first_positions_inj:
  assumes "i \<in> set (first_positions us)" "j \<in> set (first_positions us)"
    and "js_String (get_field (us ! i) ''_id'') = js_String (get_field (us ! j) ''_id'')"
  shows "i = j"
proof -
  have "same_id (us ! i) = same_id (us ! j)"
    using assms(3) by (simp add: same_id_def fun_eq_iff)
  moreover have "Some i = findIndex (same_id (us ! i)) us"
    and "Some j = findIndex (same_id (us ! j)) us"
    using assms(1,2) by (simp_all add: first_positions_def)
  ultimately have "Some i = Some j" by metis
  then show ?thesis by simp
qed

lemma getUniqueUsers_distinct_String:
  "distinct (map (\<lambda>u. js_String (get_field u ''_id'')) (getUniqueUsers socks))"
proof -
  let ?us = "List.map_filter data_user socks"
  have "inj_on (\<lambda>i. js_String (get_field (?us ! i) ''_id'')) (set (first_positions ?us))"
    by (rule inj_onI) (rule first_positions_inj)
  then show ?thesis
    by (simp add: getUniqueUsers_positions distinct_map comp_def first_positions_distinct)
qed

lemma getUniqueUsers_first:
  assumes "u \<in> set (getUniqueUsers socks)"
  shows "find (same_id u) (List.map_filter data_user socks) = Some u"
proof -
  let ?us = "List.map_filter data_user socks"
  from assms obtain i where i: "i \<in> set (first_positions ?us)" and u: "u = ?us ! i"
    by (auto simp: getUniqueUsers_positions)
  from i have "findIndex (same_id (?us ! i)) ?us = Some i"
    by (simp add: first_positions_def)
  then show ?thesis using u by (simp add: findIndex_find)
qed

lemma getUniqueUsers_complete:
  assumes "t \<in> set (List.map_filter data_user socks)"
  shows "\<exists>u\<in>set (getUniqueUsers socks). same_id t u"
proof -
  let ?us = "List.map_filter data_user socks"
  have "same_id t t" by (simp add: same_id_def)
  with assms have "findIndex (same_id t) ?us \<noteq> None"
    by (auto simp: findIndex_None_iff)
  then obtain i where i: "findIndex (same_id t) ?us = Some i" by auto
  then have lt: "i < length ?us" and p: "same_id t (?us ! i)"
    by (simp_all add: findIndex_Some_iff)
  from p have "same_id (?us ! i) = same_id t"
    by (auto simp: same_id_def fun_eq_iff)
  with i lt have "i \<in> set (first_positions ?us)"
    by (simp add: first_positions_def)
  then have "?us ! i \<in> set (getUniqueUsers socks)"
    by (simp add: getUniqueUsers_positions)
  with p show ?thesis by blast
qed

lemma getUniqueUsers_subset:
  "set (getUniqueUsers socks) \<subseteq> set (List.map_filter data_user socks)"
  by (auto simp: getUniqueUsers_positions first_positions_def)

text \<open>
  Claim C5. A \<open>room_users\<close> payload, computed by \<open>getUniqueUsers\<close> from any list of
  connections, never holds two entries with the same user id (neither the same \<open>_id\<close>
  nor the same \<open>String(_id)\<close>, which is the key of the de-duplication); every entry is
  the profile of the first connection in the list that carries that id, and every id
  carried by some connection of the list is represented.
\<close>

theorem getUniqueUsers_dedup:
  "distinct (map (\<lambda>u. get_field u ''_id'') (getUniqueUsers socks))
   \<and> distinct (map (\<lambda>u. js_String (get_field u ''_id'')) (getUniqueUsers socks))
   \<and> (\<forall>u\<in>set (getUniqueUsers socks).
         find (\<lambda>t. js_String (get_field t ''_id'') = js_String (get_field u ''_id''))
           (List.map_filter data_user socks) = Some u)
   \<and> (\<forall>t\<in>set (List.map_filter data_user socks).
         \<exists>u\<in>set (getUniqueUsers socks).
           js_String (get_field u ''_id'') = js_String (get_field t ''_id''))"
proof -
  let ?key = "\<lambda>u. js_String (get_field u ''_id'')"
  have d: "distinct (map ?key (getUniqueUsers socks))"
    by (rule getUniqueUsers_distinct_String)
  have "map ?key (getUniqueUsers socks)
      = map js_String (map (\<lambda>u. get_field u ''_id'') (getUniqueUsers socks))"
    by simp
  with d have d': "distinct (map (\<lambda>u. get_field u ''_id'') (getUniqueUsers socks))"
    by (metis distinct_map)
  have f: "\<forall>u\<in>set (getUniqueUsers socks).
      find (\<lambda>t. ?key t = ?key u) (List.map_filter data_user socks) = Some u"
    using getUniqueUsers_first [of _ socks] by (simp add: same_id_def [abs_def])
  have c: "\<forall>t\<in>set (List.map_filter data_user socks).
      \<exists>u\<in>set (getUniqueUsers socks). ?key u = ?key t"
    using getUniqueUsers_complete [of _ socks] by (auto simp: same_id_def)
  from d d' f c show ?thesis by blast
qed


theorem getUniqueUsers_dedup_witness:
  "getUniqueUsers [ex_conn ''s1'' (Some ex_alice) [], ex_conn ''s2'' None [],
                   ex_conn ''s3'' (Some ex_bob) [], ex_conn ''s4'' (Some ex_alice) []]
     = [ex_alice, ex_bob]
   \<and> distinct (map (\<lambda>u. get_field u ''_id'') [ex_alice, ex_bob])
   \<and> find (\<lambda>t. js_String (get_field t ''_id'') = js_String (get_field ex_bob ''_id''))
         [ex_alice, ex_bob, ex_alice] = Some ex_bob"
proof -
  let ?socks = "[ex_conn ''s1'' (Some ex_alice) [], ex_conn ''s2'' None [],
                 ex_conn ''s3'' (Some ex_bob) [], ex_conn ''s4'' (Some ex_alice) []]"
  have r: "getUniqueUsers ?socks = [ex_alice, ex_bob]" by code_simp
  have m: "List.map_filter data_user ?socks = [ex_alice, ex_bob, ex_alice]" by code_simp
  from getUniqueUsers_dedup [of ?socks] show ?thesis
    unfolding r m by simp
qed


section \<open>Frames of the primitive steps\<close>

lemma emit_fields [simp]:
  "users (emit tg ev pl st) = users st"
  "messages (emit tg ev pl st) = messages st"
  "presenceCounts (emit tg ev pl st) = presenceCounts st"
  "sockets (emit tg ev pl st) = sockets st"
  "pending (emit tg ev pl st) = pending st"
  "ops (emit tg ev pl st) = ops st"
  "outbox (emit tg ev pl st) = outbox st @ [Emit tg ev pl]"
  by (simp_all add: emit_def)

lemma set_socket_fields [simp]:
  "users (set_socket i f st) = users st"
  "messages (set_socket i f st) = messages st"
  "presenceCounts (set_socket i f st) = presenceCounts st"
  "pending (set_socket i f st) = pending st"
  "ops (set_socket i f st) = ops st"
  "outbox (set_socket i f st) = outbox st"
  by (simp_all add: set_socket_def)

lemma set_socket_sockets:
  "sockets (set_socket i f st) = map (\<lambda>s. if sid s = i then f s else s) (sockets st)"
  by (simp add: set_socket_def)

lemma emit_room_users_fields [simp]:
  "users (emit_room_users r st) = users st"
  "messages (emit_room_users r st) = messages st"
  "presenceCounts (emit_room_users r st) = presenceCounts st"
  "sockets (emit_room_users r st) = sockets st"
  "pending (emit_room_users r st) = pending st"
  "ops (emit_room_users r st) = ops st"
  "outbox (emit_room_users r st)
     = outbox st @ [Emit (ToRoom r) ''room_users'' (Users (getUniqueUsers (fetchSockets r st)))]"
  by (simp_all add: emit_room_users_def)

lemma socket_leave_fields [simp]:
  "users (socket_leave i r st) = users st"
  "messages (socket_leave i r st) = messages st"
  "presenceCounts (socket_leave i r st) = presenceCounts st"
  "pending (socket_leave i r st) = pending st"
  "ops (socket_leave i r st) = ops st"
  "outbox (socket_leave i r st) = outbox st"
  by (simp_all add: socket_leave_def)

lemma socket_join_fields [simp]:
  "users (socket_join i r st) = users st"
  "messages (socket_join i r st) = messages st"
  "presenceCounts (socket_join i r st) = presenceCounts st"
  "pending (socket_join i r st) = pending st"
  "ops (socket_join i r st) = ops st"
  "outbox (socket_join i r st) = outbox st"
  by (simp_all add: socket_join_def)

lemma map_sid_set_socket [simp]:
  "(\<And>s. sid (f s) = sid s) \<Longrightarrow> map sid (sockets (set_socket i f st)) = map sid (sockets st)"
  by (simp add: set_socket_sockets comp_def)

lemma map_held_set_socket [simp]:
  "(\<And>s. data_userId (f s) = data_userId s)
   \<Longrightarrow> map held_userId (sockets (set_socket i f st)) = map held_userId (sockets st)"
  by (auto simp: set_socket_sockets comp_def held_userId_def)

lemma socket_leave_roster [simp]:
  "map sid (sockets (socket_leave i r st)) = map sid (sockets st)"
  "map held_userId (sockets (socket_leave i r st)) = map held_userId (sockets st)"
  by (simp_all add: socket_leave_def)

lemma socket_join_roster [simp]:
  "map sid (sockets (socket_join i r st)) = map sid (sockets st)"
  "map held_userId (sockets (socket_join i r st)) = map held_userId (sockets st)"
  by (simp_all add: socket_join_def)

lemma leave_rooms_fields [simp]:
  "users (leave_rooms i rs st) = users st"
  "messages (leave_rooms i rs st) = messages st"
  "presenceCounts (leave_rooms i rs st) = presenceCounts st"
  "pending (leave_rooms i rs st) = pending st"
  "ops (leave_rooms i rs st) = ops st"
  "map sid (sockets (leave_rooms i rs st)) = map sid (sockets st)"
  "map held_userId (sockets (leave_rooms i rs st)) = map held_userId (sockets st)"
  by (induction rs arbitrary: st; simp)+

lemma leave_rooms_outbox:
  "\<exists>new. outbox (leave_rooms i rs st) = outbox st @ new \<and> room_users_only new"
proof (induction rs arbitrary: st)
  case Nil
  show ?case by (simp add: room_users_only_def)
next
  case (Cons r rs)
  show ?case
  proof (cases "r \<noteq> JStr i")
    case True
    from Cons [of "emit_room_users r (socket_leave i r st)"]
    obtain new where "outbox (leave_rooms i rs (emit_room_users r (socket_leave i r st)))
        = (outbox st @ [Emit (ToRoom r) ''room_users''
             (Users (getUniqueUsers (fetchSockets r (socket_leave i r st))))]) @ new"
      and "room_users_only new" by auto
    with True show ?thesis
      by (intro exI [of _ "Emit (ToRoom r) ''room_users''
             (Users (getUniqueUsers (fetchSockets r (socket_leave i r st)))) # new"])
         (simp add: room_users_only_def)
  next
    case False
    with Cons [of st] show ?thesis by simp
  qed
qed


section \<open>The presence table\<close>

lemma get_or_0_eq: "get_or_0 pc k = (case map_of pc k of None \<Rightarrow> 0 | Some c \<Rightarrow> c)"
  by (simp add: get_or_0_def split: option.splits)

lemma get_or_0_update [simp]:
  "get_or_0 (AList.update k v pc) u = (if u = k then v else get_or_0 pc u)"
  by (simp add: get_or_0_eq update_conv')

lemma get_or_0_delete [simp]:
  "get_or_0 (AList.delete k pc) u = (if u = k then 0 else get_or_0 pc u)"
  by (simp add: get_or_0_eq delete_conv')

lemma set_update_subset: "set (AList.update k v al) \<subseteq> insert (k, v) (set al)"
  by (induction al) auto

lemma set_delete_subset: "set (AList.delete k al) \<subseteq> set al"
  by (auto simp: AList.delete_eq)

lemma positive_update:
  "\<forall>kc\<in>set pc. (1::int) \<le> snd kc \<Longrightarrow> 1 \<le> v \<Longrightarrow> \<forall>kc\<in>set (AList.update k v pc). 1 \<le> snd kc"
  using set_update_subset [of k v pc] by auto

lemma positive_delete:
  "\<forall>kc\<in>set pc. (1::int) \<le> snd kc \<Longrightarrow> \<forall>kc\<in>set (AList.delete k pc). 1 \<le> snd kc"
  using set_delete_subset [of k pc] by auto

lemma positive_get_or_0:
  "\<forall>kc\<in>set pc. (1::int) \<le> snd kc \<Longrightarrow> 0 \<le> get_or_0 pc u"
  by (auto simp: get_or_0_eq split: option.splits dest!: map_of_SomeD)

lemma present_iff_positive:
  assumes "\<forall>kc\<in>set pc. (1::int) \<le> snd kc"
  shows "u \<in> fst ` set pc \<longleftrightarrow> 1 \<le> get_or_0 pc u"
proof
  assume "u \<in> fst ` set pc"
  then obtain c where c: "map_of pc u = Some c"
    by (metis domD dom_map_of_conv_image_fst)
  then have "(u, c) \<in> set pc" by (rule map_of_SomeD)
  with assms have "1 \<le> c" by auto
  with c show "1 \<le> get_or_0 pc u" by (simp add: get_or_0_eq)
next
  assume "1 \<le> get_or_0 pc u"
  then obtain c where "map_of pc u = Some c"
    by (auto simp: get_or_0_eq split: option.splits)
  then show "u \<in> fst ` set pc"
    by (metis domI dom_map_of_conv_image_fst)
qed

lemma presence_decrement_fields [simp]:
  "messages (presence_decrement k st) = messages st"
  "sockets (presence_decrement k st) = sockets st"
  "pending (presence_decrement k st) = pending st"
  "outbox (presence_decrement k st) = outbox st"
  "ops (presence_decrement k st) = ops st @ [Detach k]"
  by (simp_all add: presence_decrement_def Let_def)

lemma presence_decrement_table:
  "presenceCounts (presence_decrement k st) =
     (if get_or_0 (presenceCounts st) k - 1 \<le> 0 then AList.delete k (presenceCounts st)
      else AList.update k (get_or_0 (presenceCounts st) k - 1) (presenceCounts st))"
  by (simp add: presence_decrement_def Let_def)

lemma presence_decrement_users:
  "users (presence_decrement k st) =
     (if get_or_0 (presenceCounts st) k - 1 \<le> 0
      then fst (JSONDB_update (JStr k) [(''status'', JStr ''offline'')] (users st))
      else users st)"
  by (simp add: presence_decrement_def Let_def)

lemma presence_decrement_count:
  "get_or_0 (presenceCounts (presence_decrement k st)) u =
     (if u = k then max 0 (get_or_0 (presenceCounts st) k - 1) else get_or_0 (presenceCounts st) u)"
  by (simp add: presence_decrement_table)

lemma presence_decrement_positive:
  assumes "\<forall>kc\<in>set (presenceCounts st). 1 \<le> snd kc"
  shows "\<forall>kc\<in>set (presenceCounts (presence_decrement k st)). 1 \<le> snd kc"
proof (cases "get_or_0 (presenceCounts st) k - 1 \<le> 0")
  case True
  then show ?thesis
    using positive_delete [OF assms, of k] by (simp add: presence_decrement_table)
next
  case False
  then have "1 \<le> get_or_0 (presenceCounts st) k - 1" by simp
  from positive_update [OF assms this, of k] False show ?thesis
    by (simp add: presence_decrement_table)
qed

section \<open>The join handler, part by part\<close>

lemma join_presence_same:
  "held_userId socket = Some (js_String uid) \<Longrightarrow> join_presence i socket uid st = st"
  by (simp add: join_presence_def)

lemma join_presence_unfold:
  assumes "held_userId socket \<noteq> Some (js_String uid)"
  shows "join_presence i socket uid st =
     (let st1 = after_detach socket st;
          nextCount = get_or_0 (presenceCounts st1) (js_String uid) + 1;
          st2 = st1\<lparr>presenceCounts := AList.update (js_String uid) nextCount (presenceCounts st1),
                    ops := ops st1 @ [Attach (js_String uid)]\<rparr>;
          st3 = set_socket i (\<lambda>s. s\<lparr>data_userId := Some (js_String uid)\<rparr>) st2;
          st4 = (if nextCount = 1
                 then st3\<lparr>users := fst (JSONDB_update (JStr (js_String uid))
                                           [(''status'', JStr ''online'')] (users st3))\<rparr>
                 else st3)
      in emit ToAll ''online_users'' (Users (getOnlineUsersPublic st4)) st4)"
  using assms by (simp add: join_presence_def after_detach_def Let_def)

lemma after_detach_fields [simp]:
  "messages (after_detach socket st) = messages st"
  "sockets (after_detach socket st) = sockets st"
  "pending (after_detach socket st) = pending st"
  "outbox (after_detach socket st) = outbox st"
  by (simp_all add: after_detach_def split: option.splits)

lemma join_presence_other:
  assumes "held_userId socket \<noteq> Some (js_String uid)"
  shows "presenceCounts (join_presence i socket uid st) =
           AList.update (js_String uid)
             (get_or_0 (presenceCounts (after_detach socket st)) (js_String uid) + 1)
             (presenceCounts (after_detach socket st))"
    and "ops (join_presence i socket uid st) = ops (after_detach socket st) @ [Attach (js_String uid)]"
    and "sockets (join_presence i socket uid st) =
           map (\<lambda>s. if sid s = i then s\<lparr>data_userId := Some (js_String uid)\<rparr> else s) (sockets st)"
    and "messages (join_presence i socket uid st) = messages st"
    and "pending (join_presence i socket uid st) = pending st"
  by (simp_all add: join_presence_unfold [OF assms] Let_def set_socket_sockets)

lemma join_presence_outbox:
  assumes "held_userId socket \<noteq> Some (js_String uid)"
  shows "\<exists>st'. outbox (join_presence i socket uid st) =
           outbox st @ [Emit ToAll ''online_users'' (Users (getOnlineUsersPublic st'))]"
  by (simp add: join_presence_unfold [OF assms] Let_def)
     (rule conjI; rule impI; rule exI; rule refl)


section \<open>Reachable states are consistent\<close>

lemma find_socket_SomeD:
  "find_socket i st = Some s \<Longrightarrow> s \<in> set (sockets st) \<and> sid s = i"
  by (auto simp: find_socket_def find_Some_iff)

lemma find_socket_NoneD:
  "find_socket i st = None \<Longrightarrow> i \<notin> set (map sid (sockets st))"
  by (auto simp: find_socket_def find_None_iff)

lemma count_list_map_update:
  assumes "distinct (map sid ss)" "s \<in> set ss"
  shows "count_list (map (\<lambda>x. h (if sid x = sid s then f x else x)) ss) v
           + (if h s = v then 1 else 0)
       = count_list (map h ss) v + (if h (f s) = v then 1 else 0)"
  using assms
proof (induction ss)
  case Nil
  then show ?case by simp
next
  case (Cons x xs)
  show ?case
  proof (cases "x = s")
    case True
    with Cons.prems have "sid s \<notin> sid ` set xs" by simp
    then have "\<forall>y\<in>set xs. sid y \<noteq> sid s" by (metis imageI)
    then have eq: "map (\<lambda>x. h (if sid x = sid s then f x else x)) xs = map h xs"
      by (intro map_cong) auto
    from True show ?thesis by (simp add: eq)
  next
    case False
    with Cons.prems have "s \<in> set xs" "sid x \<noteq> sid s" "distinct (map sid xs)" by auto
    with Cons.IH show ?thesis by simp
  qed
qed

lemma count_list_filter_le:
  "count_list (map h (filter P ss)) v \<le> count_list (map h ss) v"
  by (induction ss) auto

lemma count_list_filter_drop:
  assumes "s \<in> set ss" "\<not> P s" "h s = v"
  shows "count_list (map h (filter P ss)) v < count_list (map h ss) v"
  using assms
proof (induction ss)
  case Nil
  then show ?case by simp
next
  case (Cons x xs)
  show ?case
  proof (cases "x = s")
    case True
    with Cons.prems count_list_filter_le [of h P xs v] show ?thesis by simp
  next
    case False
    with Cons.prems Cons.IH show ?thesis by auto
  qed
qed

lemma after_detach_count:
  "get_or_0 (presenceCounts (after_detach socket st)) u =
     (if held_userId socket = Some u then max 0 (get_or_0 (presenceCounts st) u - 1)
      else get_or_0 (presenceCounts st) u)"
  by (auto simp: after_detach_def presence_decrement_count split: option.splits)

lemma after_detach_balance:
  "balance u (after_detach socket st) =
     balance u st - (if held_userId socket = Some u then 1 else 0)"
  by (auto simp: after_detach_def balance_def split: option.splits)

lemma after_detach_positive:
  assumes "\<forall>kc\<in>set (presenceCounts st). 1 \<le> snd kc"
  shows "\<forall>kc\<in>set (presenceCounts (after_detach socket st)). 1 \<le> snd kc"
  using assms presence_decrement_positive [OF assms]
  by (simp add: after_detach_def split: option.splits)

lemma consistent_init: "consistent (init us ms)"
  by (simp add: consistent_def init_def holders_def balance_def get_or_0_def)

lemma consistent_outbox [simp]: "consistent (st\<lparr>outbox := out\<rparr>) = consistent st"
  by (simp add: consistent_def holders_def balance_def)

lemma consistentI:
  assumes "consistent st"
    and "map sid (sockets st') = map sid (sockets st)"
    and "map held_userId (sockets st') = map held_userId (sockets st)"
    and "presenceCounts st' = presenceCounts st"
    and "ops st' = ops st"
  shows "consistent st'"
  using assms unfolding consistent_def holders_def balance_def by metis

lemma consistent_holder_positive:
  assumes "consistent st" "s \<in> set (sockets st)" "held_userId s = Some u"
  shows "1 \<le> get_or_0 (presenceCounts st) u"
proof -
  from assms(2,3) have "Some u \<in> set (map held_userId (sockets st))" by force
  then have "count_list (map held_userId (sockets st)) (Some u) \<noteq> 0"
    by (simp add: count_list_0_iff)
  then have "1 \<le> int (holders u st)" by (simp add: holders_def)
  with assms(1) show ?thesis unfolding consistent_def by (metis order_trans)
qed


lemma consistent_cong:
  assumes "map sid (sockets st') = map sid (sockets st)"
    and "map held_userId (sockets st') = map held_userId (sockets st)"
    and "presenceCounts st' = presenceCounts st"
    and "ops st' = ops st"
  shows "consistent st' = consistent st"
  using assms unfolding consistent_def holders_def balance_def by metis

lemma on_join_found:
  assumes "findOne [(''_id'', userId p)] (users st) = Some user"
  shows "presenceCounts (on_join socket p st) =
           presenceCounts (join_presence (sid socket) socket (userId p)
             (set_socket (sid socket) (\<lambda>s. s\<lparr>data_user := Some user\<rparr>) st))"
    and "ops (on_join socket p st) =
           ops (join_presence (sid socket) socket (userId p)
             (set_socket (sid socket) (\<lambda>s. s\<lparr>data_user := Some user\<rparr>) st))"
    and "users (on_join socket p st) =
           users (join_presence (sid socket) socket (userId p)
             (set_socket (sid socket) (\<lambda>s. s\<lparr>data_user := Some user\<rparr>) st))"
    and "messages (on_join socket p st) =
           messages (join_presence (sid socket) socket (userId p)
             (set_socket (sid socket) (\<lambda>s. s\<lparr>data_user := Some user\<rparr>) st))"
    and "map sid (sockets (on_join socket p st)) =
           map sid (sockets (join_presence (sid socket) socket (userId p)
             (set_socket (sid socket) (\<lambda>s. s\<lparr>data_user := Some user\<rparr>) st)))"
    and "map held_userId (sockets (on_join socket p st)) =
           map held_userId (sockets (join_presence (sid socket) socket (userId p)
             (set_socket (sid socket) (\<lambda>s. s\<lparr>data_user := Some user\<rparr>) st)))"
  using assms by (simp_all add: on_join_def Let_def)

lemma join_presence_roster:
  assumes "held_userId socket \<noteq> Some (js_String uid)"
  shows "map sid (sockets (join_presence i socket uid (set_socket i (\<lambda>s. s\<lparr>data_user := u\<rparr>) st)))
           = map sid (sockets st)"
    and "map held_userId (sockets (join_presence i socket uid (set_socket i (\<lambda>s. s\<lparr>data_user := u\<rparr>) st)))
           = map (\<lambda>x. held_userId (if sid x = i then x\<lparr>data_userId := Some (js_String uid)\<rparr> else x))
               (sockets st)"
  by (simp_all add: join_presence_other(3) [OF assms] set_socket_sockets comp_def held_userId_def
        if_distrib cong: if_cong)


lemma held_userId_set [simp]:
  "held_userId (s\<lparr>data_userId := Some v\<rparr>) = (if v \<noteq> [] then Some v else None)"
  by (simp add: held_userId_def)

lemma consistent_join_presence:
  assumes c: "consistent st" and s: "socket \<in> set (sockets st)"
    and ne: "held_userId socket \<noteq> Some (js_String uid)"
  shows "consistent (join_presence (sid socket) socket uid
           (set_socket (sid socket) (\<lambda>s. s\<lparr>data_user := u\<rparr>) st))"
proof -
  let ?next = "js_String uid"
  let ?st1 = "set_socket (sid socket) (\<lambda>s. s\<lparr>data_user := u\<rparr>) st"
  let ?jp = "join_presence (sid socket) socket uid ?st1"
  let ?d = "after_detach socket ?st1"
  from c [unfolded consistent_def]
  have dist: "distinct (map sid (sockets st))"
    and pos: "\<forall>kc\<in>set (presenceCounts st). 1 \<le> snd kc"
    and hold: "\<And>v. int (holders v st) \<le> get_or_0 (presenceCounts st) v"
    and bal: "\<And>v. get_or_0 (presenceCounts st) v = balance v st"
    by blast+
  have pc: "presenceCounts ?jp = AList.update ?next (get_or_0 (presenceCounts ?d) ?next + 1)
              (presenceCounts ?d)"
    by (rule join_presence_other(1) [OF ne])
  have posd: "\<forall>kc\<in>set (presenceCounts ?d). 1 \<le> snd kc"
    by (rule after_detach_positive) (simp add: pos)
  have cd: "\<And>v. get_or_0 (presenceCounts ?d) v =
      (if held_userId socket = Some v then max 0 (get_or_0 (presenceCounts st) v - 1)
       else get_or_0 (presenceCounts st) v)"
    by (simp add: after_detach_count)
  have bd: "\<And>v. balance v ?d = balance v st - (if held_userId socket = Some v then 1 else 0)"
    by (simp add: after_detach_balance) (simp add: balance_def)
  have bj: "\<And>v. balance v ?jp = balance v ?d + (if v = ?next then 1 else 0)"
    by (simp add: balance_def join_presence_other(2) [OF ne])
  have 1: "distinct (map sid (sockets ?jp))"
    by (simp add: join_presence_roster(1) [OF ne] dist)
  have 2: "\<forall>kc\<in>set (presenceCounts ?jp). 1 \<le> snd kc"
    unfolding pc using positive_get_or_0 [OF posd, of ?next]
    by (intro positive_update [OF posd]) simp
  have cj: "\<And>v. get_or_0 (presenceCounts ?jp) v =
      (if v = ?next then get_or_0 (presenceCounts ?d) ?next + 1 else get_or_0 (presenceCounts ?d) v)"
    by (simp add: pc)
  have hj: "\<And>v. int (holders v ?jp) + (if held_userId socket = Some v then 1 else 0)
      = int (holders v st) + (if ?next \<noteq> [] \<and> v = ?next then 1 else 0)"
  proof -
    fix v
    from count_list_map_update [OF dist s, of held_userId
        "\<lambda>x. x\<lparr>data_userId := Some ?next\<rparr>" "Some v"]
    have "count_list (map held_userId (sockets ?jp)) (Some v)
            + (if held_userId socket = Some v then 1 else 0)
        = count_list (map held_userId (sockets st)) (Some v)
            + (if ?next \<noteq> [] \<and> v = ?next then 1 else 0)"
      by (simp add: join_presence_roster(2) [OF ne])
    then show "int (holders v ?jp) + (if held_userId socket = Some v then 1 else 0)
      = int (holders v st) + (if ?next \<noteq> [] \<and> v = ?next then 1 else 0)"
      unfolding holders_def by (auto split: if_splits)
  qed
  have hp: "\<And>v. held_userId socket = Some v \<Longrightarrow> 1 \<le> get_or_0 (presenceCounts st) v"
    by (rule consistent_holder_positive [OF c s])
  have 3: "\<forall>v. int (holders v ?jp) \<le> get_or_0 (presenceCounts ?jp) v"
  proof
    fix v
    show "int (holders v ?jp) \<le> get_or_0 (presenceCounts ?jp) v"
      using hj [of v] cj [of v] cd [of v] cd [of ?next] hold [of v] hp [of v] ne
      by (auto split: if_splits)
  qed
  have 4: "\<forall>v. get_or_0 (presenceCounts ?jp) v = balance v ?jp"
  proof
    fix v
    show "get_or_0 (presenceCounts ?jp) v = balance v ?jp"
      using cj [of v] cd [of v] cd [of ?next] bj [of v] bd [of v] bal [of v] hp [of v] ne
      by (auto split: if_splits)
  qed
  from 1 2 3 4 show ?thesis by (simp add: consistent_def)
qed


lemma consistent_on_join:
  assumes c: "consistent st" and f: "find_socket i st = Some socket"
  shows "consistent (on_join socket p st)"
proof (cases "findOne [(''_id'', userId p)] (users st)")
  case None
  with c show ?thesis by (simp add: on_join_def)
next
  case (Some user)
  let ?st1 = "set_socket (sid socket) (\<lambda>s. s\<lparr>data_user := Some user\<rparr>) st"
  let ?jp = "join_presence (sid socket) socket (userId p) ?st1"
  have "consistent (on_join socket p st) = consistent ?jp"
    by (rule consistent_cong) (simp_all add: on_join_found [OF Some])
  moreover have "consistent ?jp"
  proof (cases "held_userId socket = Some (js_String (userId p))")
    case True
    then have "?jp = ?st1" by (rule join_presence_same)
    moreover have "consistent ?st1 = consistent st"
      by (rule consistent_cong) simp_all
    ultimately show ?thesis using c by simp
  next
    case False
    from f have "socket \<in> set (sockets st)" by (simp add: find_socket_SomeD)
    from consistent_join_presence [OF c this False] show ?thesis .
  qed
  ultimately show ?thesis by simp
qed

lemma on_disconnect_frame:
  "presenceCounts (on_disconnect socket st) = presenceCounts (after_detach socket st)"
  "ops (on_disconnect socket st) = ops (after_detach socket st)"
  "users (on_disconnect socket st) = users (after_detach socket st)"
  "sockets (on_disconnect socket st) = sockets st"
  "messages (on_disconnect socket st) = messages st"
  by (simp_all add: on_disconnect_def after_detach_def Let_def split: option.splits)

lemma consistent_on_disconnect:
  assumes c: "consistent st" and f: "find_socket i st = Some socket"
  shows "consistent (on_disconnect socket
           (st\<lparr>sockets := filter (\<lambda>s. sid s \<noteq> i) (sockets st), rosters := r\<rparr>))"
proof -
  let ?st0 = "st\<lparr>sockets := filter (\<lambda>s. sid s \<noteq> i) (sockets st), rosters := r\<rparr>"
  let ?st' = "on_disconnect socket ?st0"
  from c [unfolded consistent_def]
  have dist: "distinct (map sid (sockets st))"
    and pos: "\<forall>kc\<in>set (presenceCounts st). 1 \<le> snd kc"
    and hold: "\<And>v. int (holders v st) \<le> get_or_0 (presenceCounts st) v"
    and bal: "\<And>v. get_or_0 (presenceCounts st) v = balance v st"
    by blast+
  from f have s: "socket \<in> set (sockets st)" and i: "sid socket = i"
    by (simp_all add: find_socket_SomeD)
  have 1: "distinct (map sid (sockets ?st'))"
    by (simp add: on_disconnect_frame distinct_map_filter dist)
  have 2: "\<forall>kc\<in>set (presenceCounts ?st'). 1 \<le> snd kc"
    unfolding on_disconnect_frame by (rule after_detach_positive) (simp add: pos)
  have cd: "\<And>v. get_or_0 (presenceCounts ?st') v =
      (if held_userId socket = Some v then max 0 (get_or_0 (presenceCounts st) v - 1)
       else get_or_0 (presenceCounts st) v)"
    by (simp add: on_disconnect_frame after_detach_count)
  have bd: "\<And>v. balance v ?st' = balance v st - (if held_userId socket = Some v then 1 else 0)"
    using after_detach_balance [of _ socket ?st0]
    by (simp add: balance_def on_disconnect_frame)
  have hp: "\<And>v. held_userId socket = Some v \<Longrightarrow> 1 \<le> get_or_0 (presenceCounts st) v"
    by (rule consistent_holder_positive [OF c s])
  have hle: "\<And>v. holders v ?st' \<le> holders v st"
    by (simp add: holders_def on_disconnect_frame count_list_filter_le)
  have hlt: "\<And>v. held_userId socket = Some v \<Longrightarrow> holders v ?st' < holders v st"
    using s i by (simp add: holders_def on_disconnect_frame count_list_filter_drop)
  have 3: "\<forall>v. int (holders v ?st') \<le> get_or_0 (presenceCounts ?st') v"
  proof
    fix v
    show "int (holders v ?st') \<le> get_or_0 (presenceCounts ?st') v"
      using cd [of v] hold [of v] hp [of v] hle [of v] hlt [of v]
      by (auto split: if_splits)
  qed
  have 4: "\<forall>v. get_or_0 (presenceCounts ?st') v = balance v ?st'"
  proof
    fix v
    show "get_or_0 (presenceCounts ?st') v = balance v ?st'"
      using cd [of v] bd [of v] bal [of v] hp [of v]
      by (auto split: if_splits)
  qed
  from 1 2 3 4 show ?thesis by (simp add: consistent_def)
qed

lemma on_delete_message_frame:
  "presenceCounts (on_delete_message socket m st) = presenceCounts st"
  "ops (on_delete_message socket m st) = ops st"
  "users (on_delete_message socket m st) = users st"
  "sockets (on_delete_message socket m st) = sockets st"
  by (simp_all add: on_delete_message_def split: option.splits)

lemma on_edit_message_frame:
  "presenceCounts (on_edit_message socket m t st) = presenceCounts st"
  "ops (on_edit_message socket m t st) = ops st"
  "users (on_edit_message socket m t st) = users st"
  "sockets (on_edit_message socket m t st) = sockets st"
  by (simp_all add: on_edit_message_def Let_def split: option.splits)

lemma on_grace_elapsed_frame:
  "presenceCounts (on_grace_elapsed st) = presenceCounts st"
  "ops (on_grace_elapsed st) = ops st"
  "users (on_grace_elapsed st) = users st"
  "sockets (on_grace_elapsed st) = sockets st"
  "messages (on_grace_elapsed st) = messages st"
  by (simp_all add: on_grace_elapsed_def split: list.splits)

lemma consistent_connect:
  assumes c: "consistent st" and f: "find_socket i st = None"
  shows "consistent (on_connection i (st\<lparr>sockets := sockets st @ [new_socket i], rosters := r\<rparr>))"
proof -
  let ?st' = "on_connection i (st\<lparr>sockets := sockets st @ [new_socket i], rosters := r\<rparr>)"
  from f have ni: "i \<notin> set (map sid (sockets st))" by (rule find_socket_NoneD)
  from c [unfolded consistent_def]
  have dist: "distinct (map sid (sockets st))"
    and pos: "\<forall>kc\<in>set (presenceCounts st). 1 \<le> snd kc"
    and hold: "\<forall>v. int (holders v st) \<le> get_or_0 (presenceCounts st) v"
    and bal: "\<forall>v. get_or_0 (presenceCounts st) v = balance v st"
    by blast+
  have 1: "distinct (map sid (sockets ?st'))"
    using dist ni by (simp add: on_connection_def new_socket_def)
  have h: "\<And>v. holders v ?st' = holders v st"
    by (simp add: holders_def on_connection_def new_socket_def held_userId_def)
  have b: "\<And>v. balance v ?st' = balance v st"
    by (simp add: balance_def on_connection_def)
  have p: "presenceCounts ?st' = presenceCounts st"
    by (simp add: on_connection_def)
  show ?thesis unfolding consistent_def h b p using 1 pos hold bal by blast
qed

lemma consistent_handle:
  assumes "consistent st"
  shows "consistent (handle e st)"
proof (cases e)
  case (Connect i)
  with assms consistent_connect [OF assms, of i] show ?thesis
    by (simp split: option.splits)
next
  case (Join i p)
  with assms consistent_on_join [OF assms, of i _ p] show ?thesis
    by (simp split: option.splits)
next
  case (Disconnect i)
  with assms consistent_on_disconnect [OF assms, of i] show ?thesis
    by (simp split: option.splits)
next
  case GraceElapsed
  have "consistent (on_grace_elapsed st) = consistent st"
    by (rule consistent_cong) (simp_all add: on_grace_elapsed_frame)
  with assms GraceElapsed show ?thesis by simp
next
  case (DeleteMessage i m)
  have "\<And>s. consistent (on_delete_message s m st) = consistent st"
    by (rule consistent_cong) (simp_all add: on_delete_message_frame)
  with assms DeleteMessage show ?thesis by (simp split: option.splits)
next
  case (EditMessage i m t)
  have "\<And>s. consistent (on_edit_message s m t st) = consistent st"
    by (rule consistent_cong) (simp_all add: on_edit_message_frame)
  with assms EditMessage show ?thesis by (simp split: option.splits)
qed

lemma consistent_step: "consistent st \<Longrightarrow> consistent (step st e)"
  by (simp add: step_def consistent_handle)

lemma run_snoc: "run st (es @ [e]) = step (run st es) e"
  by (simp add: run_def)

lemma consistent_run: "consistent st \<Longrightarrow> consistent (run st es)"
  by (induction es rule: rev_induct) (simp_all add: run_snoc consistent_step, simp add: run_def)

lemma consistent_reachable: "consistent (run (init us ms) es)"
  by (rule consistent_run [OF consistent_init])


section \<open>The online list\<close>

lemma findOne_id_SomeD:
  "findOne [(''_id'', v)] data = Some item \<Longrightarrow> item \<in> set data \<and> get_field item ''_id'' = v"
  by (auto simp: findOne_def find_Some_iff)

lemma map_of_filter_key:
  "map_of (filter (\<lambda>(k, v). k \<noteq> a) xs) k' = (if k' = a then None else map_of xs k')"
  by (induction xs) auto

lemma get_field_without_password:
  "k \<noteq> ''password'' \<Longrightarrow> get_field (without_password user) k = get_field user k"
  by (simp add: get_field_def without_password_def map_of_filter_key)

lemma without_password_no_password:
  "''password'' \<notin> fst ` set (without_password user)"
  by (auto simp: without_password_def)

lemma set_map_filter: "set (List.map_filter f xs) = {y. \<exists>x\<in>set xs. f x = Some y}"
  by (induction xs) (auto split: option.splits)

lemma getOnlineUsersPublic_mem:
  "p \<in> set (getOnlineUsersPublic st) \<longleftrightarrow>
     (\<exists>user k c. (k, c) \<in> set (presenceCounts st) \<and> 0 < c
        \<and> findOne [(''_id'', JStr k)] (users st) = Some user \<and> p = without_password user)"
proof
  assume "p \<in> set (getOnlineUsersPublic st)"
  then obtain k where k: "k \<in> set (map fst (filter (\<lambda>(userId, count). count > 0) (presenceCounts st)))"
    and p: "(case findOne [(''_id'', JStr k)] (users st) of None \<Rightarrow> None
             | Some user \<Rightarrow> Some (without_password user)) = Some p"
    unfolding getOnlineUsersPublic_def Let_def set_map_filter by blast
  from k obtain c where "(k, c) \<in> set (presenceCounts st)" "0 < c" by auto
  moreover from p obtain user where "findOne [(''_id'', JStr k)] (users st) = Some user"
    "p = without_password user" by (auto split: option.splits)
  ultimately show "\<exists>user k c. (k, c) \<in> set (presenceCounts st) \<and> 0 < c
        \<and> findOne [(''_id'', JStr k)] (users st) = Some user \<and> p = without_password user"
    by blast
next
  assume "\<exists>user k c. (k, c) \<in> set (presenceCounts st) \<and> 0 < c
        \<and> findOne [(''_id'', JStr k)] (users st) = Some user \<and> p = without_password user"
  then obtain user k c where kc: "(k, c) \<in> set (presenceCounts st)" "0 < c"
    and f: "findOne [(''_id'', JStr k)] (users st) = Some user" and p: "p = without_password user"
    by blast
  from kc have "k \<in> set (map fst (filter (\<lambda>(userId, count). count > 0) (presenceCounts st)))"
    by force
  moreover from f p have "(case findOne [(''_id'', JStr k)] (users st) of None \<Rightarrow> None
             | Some user \<Rightarrow> Some (without_password user)) = Some p" by simp
  ultimately show "p \<in> set (getOnlineUsersPublic st)"
    unfolding getOnlineUsersPublic_def Let_def set_map_filter by blast
qed

lemma getOnlineUsersPublic_no_password:
  "p \<in> set (getOnlineUsersPublic st) \<Longrightarrow> ''password'' \<notin> fst ` set p"
  by (auto simp: getOnlineUsersPublic_mem without_password_def)

lemma online_iff_positive:
  assumes pos: "\<forall>kc\<in>set (presenceCounts st). 1 \<le> snd kc"
    and found: "findOne [(''_id'', JStr u)] (users st) \<noteq> None"
  shows "(\<exists>p\<in>set (getOnlineUsersPublic st). get_field p ''_id'' = JStr u)
         \<longleftrightarrow> 0 < get_or_0 (presenceCounts st) u"
proof
  assume "\<exists>p\<in>set (getOnlineUsersPublic st). get_field p ''_id'' = JStr u"
  then obtain user k c where kc: "(k, c) \<in> set (presenceCounts st)"
    and f: "findOne [(''_id'', JStr k)] (users st) = Some user"
    and id: "get_field (without_password user) ''_id'' = JStr u"
    by (auto simp: getOnlineUsersPublic_mem)
  from f have "get_field user ''_id'' = JStr k" by (simp add: findOne_id_SomeD)
  with id have "k = u" by (simp add: get_field_without_password)
  with kc have "u \<in> fst ` set (presenceCounts st)" by force
  with pos have "1 \<le> get_or_0 (presenceCounts st) u" by (simp add: present_iff_positive)
  then show "0 < get_or_0 (presenceCounts st) u" by simp
next
  assume "0 < get_or_0 (presenceCounts st) u"
  then obtain c where c: "map_of (presenceCounts st) u = Some c" "0 < c"
    by (auto simp: get_or_0_eq split: option.splits)
  then have kc: "(u, c) \<in> set (presenceCounts st)" by (simp add: map_of_SomeD)
  from found obtain user where f: "findOne [(''_id'', JStr u)] (users st) = Some user" by auto
  then have "get_field user ''_id'' = JStr u" by (simp add: findOne_id_SomeD)
  then have "get_field (without_password user) ''_id'' = JStr u"
    by (simp add: get_field_without_password)
  moreover from kc c(2) f have "without_password user \<in> set (getOnlineUsersPublic st)"
    by (auto simp: getOnlineUsersPublic_mem)
  ultimately show "\<exists>p\<in>set (getOnlineUsersPublic st). get_field p ''_id'' = JStr u" by blast
qed

section \<open>Claims about the presence table\<close>

text \<open>
  Claim C3. In every state the server reaches from its start by any sequence of events,
  a user id is a key of the presence table if and only if its count is at least 1; so
  when an event leaves a user with count 0, the table has no entry for that user after
  the event. And the decrement block, run in any state on a count that would reach 0 (or
  less), leaves no entry for that user.
\<close>

theorem presence_table_invariant:
  assumes "st = run (init us ms) es"
  shows "(u \<in> fst ` set (presenceCounts st) \<longleftrightarrow> 1 \<le> get_or_0 (presenceCounts st) u)
       \<and> (get_or_0 (presenceCounts (step st e)) u = 0
            \<longrightarrow> u \<notin> fst ` set (presenceCounts (step st e)))
       \<and> (get_or_0 (presenceCounts st') u - 1 \<le> 0
            \<longrightarrow> u \<notin> fst ` set (presenceCounts (presence_decrement u st')))"
proof -
  have c: "consistent st" unfolding assms by (rule consistent_reachable)
  then have "\<forall>kc\<in>set (presenceCounts st). 1 \<le> snd kc" by (simp add: consistent_def)
  then have 1: "u \<in> fst ` set (presenceCounts st) \<longleftrightarrow> 1 \<le> get_or_0 (presenceCounts st) u"
    by (rule present_iff_positive)
  from c have "consistent (step st e)" by (rule consistent_step)
  then have "\<forall>kc\<in>set (presenceCounts (step st e)). 1 \<le> snd kc" by (simp add: consistent_def)
  then have "u \<in> fst ` set (presenceCounts (step st e))
      \<longleftrightarrow> 1 \<le> get_or_0 (presenceCounts (step st e)) u"
    by (rule present_iff_positive)
  then have 2: "get_or_0 (presenceCounts (step st e)) u = 0
      \<longrightarrow> u \<notin> fst ` set (presenceCounts (step st e))"
    by simp
  have 3: "get_or_0 (presenceCounts st') u - 1 \<le> 0
      \<longrightarrow> u \<notin> fst ` set (presenceCounts (presence_decrement u st'))"
    by (simp add: presence_decrement_table delete_notin_dom)
  from 1 2 3 show ?thesis by blast
qed

text \<open>
  Claim C4. After any sequence of events from the start, the presence count of a user is
  the number of attaches of that user minus the number of its detaches, clamped at 0.
  Attaches and detaches are counted in the history \<open>ops\<close>, to which the model adds an
  entry where the handlers run the increment and the decrement block; detaches never
  outnumber attaches, so the clamp is never active. And if the store has a record with
  that id, the public online list has a profile with that id if and only if the count is
  positive.
\<close>

theorem presence_count_balance:
  assumes "st = run (init us ms) es"
  shows "get_or_0 (presenceCounts st) u
           = max 0 (int (count_list (ops st) (Attach u)) - int (count_list (ops st) (Detach u)))
       \<and> count_list (ops st) (Detach u) \<le> count_list (ops st) (Attach u)
       \<and> (findOne [(''_id'', JStr u)] (users st) \<noteq> None \<longrightarrow>
            ((\<exists>p\<in>set (getOnlineUsersPublic st). get_field p ''_id'' = JStr u)
             \<longleftrightarrow> 0 < get_or_0 (presenceCounts st) u))"
proof -
  have c: "consistent st" unfolding assms by (rule consistent_reachable)
  from c [unfolded consistent_def]
  have pos: "\<forall>kc\<in>set (presenceCounts st). 1 \<le> snd kc"
    and bal: "get_or_0 (presenceCounts st) u = balance u st"
    by blast+
  from pos have nn: "0 \<le> get_or_0 (presenceCounts st) u" by (rule positive_get_or_0)
  from bal nn have 1: "get_or_0 (presenceCounts st) u
      = max 0 (int (count_list (ops st) (Attach u)) - int (count_list (ops st) (Detach u)))"
    by (simp add: balance_def)
  from bal nn have 2: "count_list (ops st) (Detach u) \<le> count_list (ops st) (Attach u)"
    by (simp add: balance_def)
  from online_iff_positive [OF pos] 1 2 show ?thesis by blast
qed

theorem presence_table_invariant_witness:
  "''u1'' \<in> fst ` set (presenceCounts ex_tab_closed)
   \<and> 1 \<le> get_or_0 (presenceCounts ex_tab_closed) ''u1''
   \<and> get_or_0 (presenceCounts (step ex_tab_closed (Disconnect ''s2''))) ''u1'' = 0
   \<and> ''u1'' \<notin> fst ` set (presenceCounts (step ex_tab_closed (Disconnect ''s2'')))
   \<and> get_or_0 (presenceCounts ex_tab_closed) ''u1'' - 1 \<le> 0
   \<and> ''u1'' \<notin> fst ` set (presenceCounts (presence_decrement ''u1'' ex_tab_closed))"
proof -
  have r: "ex_tab_closed = run (init ex_users [ex_msg])
             [Connect ''s1'', Join ''s1'' (ex_join ''u1'' ''general''),
              Connect ''s2'', Join ''s2'' (ex_join ''u1'' ''general''), Disconnect ''s1'']"
    by (simp add: ex_tab_closed_def ex_start_def)
  have c: "get_or_0 (presenceCounts ex_tab_closed) ''u1'' = 1" by code_simp
  have z: "get_or_0 (presenceCounts (step ex_tab_closed (Disconnect ''s2''))) ''u1'' = 0"
    by code_simp
  from presence_table_invariant [OF r, where u = "''u1''" and e = "Disconnect ''s2''"
      and st' = ex_tab_closed] c z
  show ?thesis by simp
qed

theorem presence_count_balance_witness:
  "get_or_0 (presenceCounts ex_tab_closed) ''u1'' = 1
   \<and> count_list (ops ex_tab_closed) (Attach ''u1'') = 2
   \<and> count_list (ops ex_tab_closed) (Detach ''u1'') = 1
   \<and> findOne [(''_id'', JStr ''u1'')] (users ex_tab_closed) \<noteq> None
   \<and> (\<exists>p\<in>set (getOnlineUsersPublic ex_tab_closed). get_field p ''_id'' = JStr ''u1'')"
proof -
  have r: "ex_tab_closed = run (init ex_users [ex_msg])
             [Connect ''s1'', Join ''s1'' (ex_join ''u1'' ''general''),
              Connect ''s2'', Join ''s2'' (ex_join ''u1'' ''general''), Disconnect ''s1'']"
    by (simp add: ex_tab_closed_def ex_start_def)
  have c: "get_or_0 (presenceCounts ex_tab_closed) ''u1'' = 1" by code_simp
  have a: "count_list (ops ex_tab_closed) (Attach ''u1'') = 2" by code_simp
  have d: "count_list (ops ex_tab_closed) (Detach ''u1'') = 1" by code_simp
  have f: "findOne [(''_id'', JStr ''u1'')] (users ex_tab_closed) \<noteq> None" by code_simp
  from presence_count_balance [OF r, of "''u1''"] c a d f show ?thesis by simp
qed


section \<open>Events on a live connection\<close>

lemma find_socket_outbox [simp]: "find_socket i (st\<lparr>outbox := out\<rparr>) = find_socket i st"
  by (simp add: find_socket_def)

lemma step_Join:
  "find_socket i st = Some socket \<Longrightarrow> step st (Join i p) = on_join socket p (st\<lparr>outbox := []\<rparr>)"
  by (simp add: step_def)

lemma step_Disconnect:
  "find_socket i st = Some socket \<Longrightarrow>
   step st (Disconnect i) =
     on_disconnect socket
       (st\<lparr>outbox := [], sockets := filter (\<lambda>s. sid s \<noteq> i) (sockets st),
           rosters := map (\<lambda>(room, ids). (room, removeAll i ids)) (rosters st)\<rparr>)"
  by (simp add: step_def)

lemma step_dead:
  "find_socket i st = None \<Longrightarrow> step st (Join i p) = st\<lparr>outbox := []\<rparr>"
  "find_socket i st = None \<Longrightarrow> step st (Disconnect i) = st\<lparr>outbox := []\<rparr>"
  by (simp_all add: step_def)

lemma presence_decrement_map_of:
  "u \<noteq> k \<Longrightarrow> map_of (presenceCounts (presence_decrement k st)) u = map_of (presenceCounts st) u"
  by (simp add: presence_decrement_table update_conv' delete_conv')

lemma after_detach_ops:
  "ops (after_detach socket st) =
     ops st @ (case held_userId socket of None \<Rightarrow> [] | Some prev \<Rightarrow> [Detach prev])"
  by (simp add: after_detach_def split: option.splits)

lemma after_detach_map_of:
  "held_userId socket \<noteq> Some u \<Longrightarrow>
   map_of (presenceCounts (after_detach socket st)) u = map_of (presenceCounts st) u"
  by (auto simp: after_detach_def presence_decrement_map_of split: option.splits)

text \<open>
  Claim C6. In a state the server reaches, let a live connection that holds user
  id \<open>a\<close> (\<open>socket.data.userId\<close> is the truthy string \<open>a\<close>) handle a join whose declared
  user is found in the store and whose id as a string is \<open>b\<close>, other than \<open>a\<close>. Then
  within that one event the count of \<open>a\<close>, which was at least 1, goes down by exactly 1,
  the count of \<open>b\<close> goes up by exactly 1, no other key of the presence table changes,
  and the history gains exactly one detach of \<open>a\<close> followed by one attach of \<open>b\<close>.
\<close>

theorem join_switches_user:
  assumes reach: "st = run (init us ms) es"
    and live: "find_socket i st = Some socket"
    and held: "held_userId socket = Some a"
    and found: "findOne [(''_id'', userId p)] (users st) = Some user"
    and b: "js_String (userId p) = b" and ab: "a \<noteq> b"
  shows "1 \<le> get_or_0 (presenceCounts st) a
       \<and> get_or_0 (presenceCounts (step st (Join i p))) a = get_or_0 (presenceCounts st) a - 1
       \<and> get_or_0 (presenceCounts (step st (Join i p))) b = get_or_0 (presenceCounts st) b + 1
       \<and> (\<forall>u. u \<noteq> a \<and> u \<noteq> b \<longrightarrow>
             map_of (presenceCounts (step st (Join i p))) u = map_of (presenceCounts st) u)
       \<and> ops (step st (Join i p)) = ops st @ [Detach a, Attach b]"
proof -
  let ?st0 = "st\<lparr>outbox := []\<rparr>"
  let ?st1 = "set_socket (sid socket) (\<lambda>s. s\<lparr>data_user := Some user\<rparr>) ?st0"
  let ?jp = "join_presence (sid socket) socket (userId p) ?st1"
  let ?d = "after_detach socket ?st1"
  have c: "consistent st" unfolding reach by (rule consistent_reachable)
  from live have s: "socket \<in> set (sockets st)" by (simp add: find_socket_SomeD)
  from consistent_holder_positive [OF c s held]
  have 1: "1 \<le> get_or_0 (presenceCounts st) a" .
  from held b ab have ne: "held_userId socket \<noteq> Some (js_String (userId p))" by simp
  from found have found0: "findOne [(''_id'', userId p)] (users ?st0) = Some user" by simp
  have pc: "presenceCounts (step st (Join i p)) =
      AList.update b (get_or_0 (presenceCounts ?d) b + 1) (presenceCounts ?d)"
    by (simp add: step_Join [OF live] on_join_found(1) [OF found0]
          join_presence_other(1) [OF ne] b)
  have op: "ops (step st (Join i p)) = ops ?d @ [Attach b]"
    by (simp add: step_Join [OF live] on_join_found(2) [OF found0]
          join_presence_other(2) [OF ne] b)
  have da: "get_or_0 (presenceCounts ?d) a = get_or_0 (presenceCounts st) a - 1"
    using 1 held by (simp add: after_detach_count)
  have db: "get_or_0 (presenceCounts ?d) b = get_or_0 (presenceCounts st) b"
    using held ab by (simp add: after_detach_count)
  have dm: "\<And>u. u \<noteq> a \<Longrightarrow> map_of (presenceCounts ?d) u = map_of (presenceCounts st) u"
    using held by (simp add: after_detach_map_of)
  have 2: "get_or_0 (presenceCounts (step st (Join i p))) a = get_or_0 (presenceCounts st) a - 1"
    using ab by (simp add: pc da)
  have 3: "get_or_0 (presenceCounts (step st (Join i p))) b = get_or_0 (presenceCounts st) b + 1"
    by (simp add: pc db)
  have 4: "\<forall>u. u \<noteq> a \<and> u \<noteq> b \<longrightarrow>
      map_of (presenceCounts (step st (Join i p))) u = map_of (presenceCounts st) u"
    by (simp add: pc update_conv' dm)
  have 5: "ops (step st (Join i p)) = ops st @ [Detach a, Attach b]"
    using held by (simp add: op after_detach_ops)
  from 1 2 3 4 5 show ?thesis by blast
qed


section \<open>Emissions\<close>

lemma room_users_only_append [simp]:
  "room_users_only (xs @ ys) \<longleftrightarrow> room_users_only xs \<and> room_users_only ys"
  by (simp add: room_users_only_def)

lemma room_users_only_simps [simp]:
  "room_users_only []"
  "room_users_only (Emit (ToRoom r) ''room_users'' pl # xs) = room_users_only xs"
  by (simp_all add: room_users_only_def)

lemma room_users_only_no_broadcast:
  "room_users_only out \<Longrightarrow>
   \<not> list_ex (\<lambda>e. case e of Emit tg ev pl \<Rightarrow> tg = ToAll \<and> ev = ''online_users'') out"
  by (induction out) (auto simp: room_users_only_def split: emission.splits target.splits)

lemma on_join_outbox:
  assumes "findOne [(''_id'', userId p)] (users st) = Some user"
  shows "\<exists>new. outbox (on_join socket p st) =
            outbox (join_presence (sid socket) socket (userId p)
              (set_socket (sid socket) (\<lambda>s. s\<lparr>data_user := Some user\<rparr>) st)) @ new
          \<and> room_users_only new"
proof -
  let ?i = "sid socket"
  let ?jp = "join_presence ?i socket (userId p) (set_socket ?i (\<lambda>s. s\<lparr>data_user := Some user\<rparr>) st)"
  let ?st3 = "set_socket ?i (\<lambda>s. s\<lparr>data_currentChannel := channelId p\<rparr>) ?jp"
  from leave_rooms_outbox [of ?i "rooms socket" ?st3]
  obtain new where new: "outbox (leave_rooms ?i (rooms socket) ?st3) = outbox ?jp @ new"
    "room_users_only new" by auto
  show ?thesis
  proof (cases "truthy (channelId p)")
    case True
    with assms new show ?thesis
      by (intro exI [of _ "new @ [Emit (ToRoom (channelId p)) ''room_users''
            (Users (getUniqueUsers (fetchSockets (channelId p)
               (socket_join ?i (channelId p) (leave_rooms ?i (rooms socket) ?st3)))))]"])
         (simp add: on_join_def Let_def)
  next
    case False
    with assms new show ?thesis
      by (intro exI [of _ new]) (simp add: on_join_def Let_def)
  qed
qed

lemma on_disconnect_outbox:
  "outbox (on_disconnect socket st) =
     outbox st @ (case held_userId socket of
                    None \<Rightarrow> []
                  | Some u \<Rightarrow> [Emit ToAll ''online_users''
                               (Users (getOnlineUsersPublic (presence_decrement u st)))])"
  by (simp add: on_disconnect_def Let_def split: option.splits)

lemma crossing_same [simp]: "\<not> crossing pc pc"
  by (simp add: crossing_def list_ex_iff)

lemma broadcast_online_step_Join:
  "broadcast_online (step st (Join i p)) \<longleftrightarrow>
     (\<exists>socket user. find_socket i st = Some socket
        \<and> findOne [(''_id'', userId p)] (users st) = Some user
        \<and> held_userId socket \<noteq> Some (js_String (userId p)))"
proof (cases "find_socket i st")
  case None
  then show ?thesis by (simp add: step_dead broadcast_online_def)
next
  case (Some socket)
  show ?thesis
  proof (cases "findOne [(''_id'', userId p)] (users st)")
    case None
    with Some show ?thesis by (simp add: step_Join on_join_def broadcast_online_def)
  next
    case (Some user)
    let ?st0 = "st\<lparr>outbox := []\<rparr>"
    let ?st1 = "set_socket (sid socket) (\<lambda>s. s\<lparr>data_user := Some user\<rparr>) ?st0"
    from Some have found0: "findOne [(''_id'', userId p)] (users ?st0) = Some user" by simp
    from on_join_outbox [OF found0, of socket]
    obtain new where new: "outbox (on_join socket p ?st0) =
        outbox (join_presence (sid socket) socket (userId p) ?st1) @ new"
      and ro: "room_users_only new" by blast
    note nb = room_users_only_no_broadcast [OF ro]
    show ?thesis
    proof (cases "held_userId socket = Some (js_String (userId p))")
      case True
      with \<open>find_socket i st = Some socket\<close> Some new nb show ?thesis
        by (simp add: step_Join broadcast_online_def join_presence_same)
    next
      case False
      from join_presence_outbox [OF False, of "sid socket" ?st1]
      obtain st' where "outbox (join_presence (sid socket) socket (userId p) ?st1)
          = [Emit ToAll ''online_users'' (Users (getOnlineUsersPublic st'))]" by auto
      with \<open>find_socket i st = Some socket\<close> Some new False show ?thesis
        by (simp add: step_Join broadcast_online_def)
    qed
  qed
qed

lemma broadcast_online_step_Disconnect:
  "broadcast_online (step st (Disconnect i)) \<longleftrightarrow>
     (\<exists>socket u. find_socket i st = Some socket \<and> held_userId socket = Some u)"
proof (cases "find_socket i st")
  case None
  then show ?thesis by (simp add: step_dead broadcast_online_def)
next
  case (Some socket)
  then show ?thesis
    by (simp add: step_Disconnect broadcast_online_def on_disconnect_outbox split: option.splits)
qed

lemma quiet_step_Join:
  assumes "\<not> broadcast_online (step st (Join i p))"
  shows "presenceCounts (step st (Join i p)) = presenceCounts st"
proof (cases "find_socket i st")
  case None
  then show ?thesis by (simp add: step_dead)
next
  case (Some socket)
  show ?thesis
  proof (cases "findOne [(''_id'', userId p)] (users st)")
    case None
    with Some show ?thesis by (simp add: step_Join on_join_def)
  next
    case found: (Some user)
    from assms Some found have "held_userId socket = Some (js_String (userId p))"
      by (auto simp: broadcast_online_step_Join)
    with Some found show ?thesis
      by (simp add: step_Join on_join_found(1) join_presence_same)
  qed
qed

lemma quiet_step_Disconnect:
  assumes "\<not> broadcast_online (step st (Disconnect i))"
  shows "presenceCounts (step st (Disconnect i)) = presenceCounts st"
proof (cases "find_socket i st")
  case None
  then show ?thesis by (simp add: step_dead)
next
  case (Some socket)
  with assms have "held_userId socket = None"
    by (auto simp: broadcast_online_step_Disconnect)
  with Some show ?thesis
    by (simp add: step_Disconnect on_disconnect_frame after_detach_def)
qed

text \<open>
  Claim C2, amended. A join emits the \<open>online_users\<close> broadcast to all connections
  if and only if its connection is live, the declared user is found and its id differs
  from the one the connection holds; a disconnect emits it if and only if its connection
  is live and holds a user id. Whenever some count goes from 0 to 1 or from 1 to 0 during
  a join or a disconnect, the broadcast is emitted; it is also emitted when a count
  changes without crossing (1 to 2, 2 to 1).
\<close>

theorem online_broadcast_iff_attachment_changes:
  "(broadcast_online (step st (Join i p)) \<longleftrightarrow>
      (\<exists>socket user. find_socket i st = Some socket
         \<and> findOne [(''_id'', userId p)] (users st) = Some user
         \<and> held_userId socket \<noteq> Some (js_String (userId p))))
   \<and> (broadcast_online (step st (Disconnect i)) \<longleftrightarrow>
        (\<exists>socket u. find_socket i st = Some socket \<and> held_userId socket = Some u))
   \<and> (crossing (presenceCounts st) (presenceCounts (step st (Join i p)))
        \<longrightarrow> broadcast_online (step st (Join i p)))
   \<and> (crossing (presenceCounts st) (presenceCounts (step st (Disconnect i)))
        \<longrightarrow> broadcast_online (step st (Disconnect i)))"
  using broadcast_online_step_Join [of st i p] broadcast_online_step_Disconnect [of st i]
    quiet_step_Join [of st i p] quiet_step_Disconnect [of st i] crossing_same
  by metis


text \<open>
  Claim C7. When a live connection handles a join declaring the user id it already
  holds (\<open>socket.data.userId\<close> is truthy and equals \<open>String(userId)\<close>), and that user is
  found in the store, the presence table, the user store (hence every status field) and
  the history of presence operations are unchanged, no \<open>online_users\<close> broadcast is
  emitted, and all the event emits is \<open>room_users\<close> to rooms.
\<close>

theorem rejoin_same_user:
  assumes live: "find_socket i st = Some socket"
    and held: "held_userId socket = Some (js_String (userId p))"
    and found: "findOne [(''_id'', userId p)] (users st) = Some user"
  shows "presenceCounts (step st (Join i p)) = presenceCounts st
       \<and> users (step st (Join i p)) = users st
       \<and> ops (step st (Join i p)) = ops st
       \<and> \<not> broadcast_online (step st (Join i p))
       \<and> room_users_only (outbox (step st (Join i p)))"
proof -
  let ?st0 = "st\<lparr>outbox := []\<rparr>"
  let ?st1 = "set_socket (sid socket) (\<lambda>s. s\<lparr>data_user := Some user\<rparr>) ?st0"
  from found have found0: "findOne [(''_id'', userId p)] (users ?st0) = Some user" by simp
  have jp: "join_presence (sid socket) socket (userId p) ?st1 = ?st1"
    using held by (rule join_presence_same)
  have 1: "presenceCounts (step st (Join i p)) = presenceCounts st"
    by (simp add: step_Join [OF live] on_join_found(1) [OF found0] jp)
  have 2: "users (step st (Join i p)) = users st"
    by (simp add: step_Join [OF live] on_join_found(3) [OF found0] jp)
  have 3: "ops (step st (Join i p)) = ops st"
    by (simp add: step_Join [OF live] on_join_found(2) [OF found0] jp)
  from on_join_outbox [OF found0, of socket]
  have 5: "room_users_only (outbox (step st (Join i p)))"
    by (auto simp: step_Join [OF live] jp)
  then have 4: "\<not> broadcast_online (step st (Join i p))"
    unfolding broadcast_online_def by (rule room_users_only_no_broadcast)
  from 1 2 3 4 5 show ?thesis by blast
qed

text \<open>
  Claim C8. A join whose declared user id is not found in the user store changes
  nothing: the presence table, every connection (attached user, user id, current channel
  and rooms), both stores and the pending timers are as before, and nothing is emitted.
\<close>

theorem join_unknown_user_ignored:
  assumes "findOne [(''_id'', userId p)] (users st) = None"
  shows "step st (Join i p) = st\<lparr>outbox := []\<rparr>"
  using assms by (simp add: step_def on_join_def split: option.splits)

text \<open>
  In every state the server reaches, a live connection that holds a user id finds an
  entry for that id in the presence table, with a count of at least 1: neither handler
  ever runs the decrement block on a key that the table does not have.
\<close>

lemma held_userId_has_entry:
  assumes "st = run (init us ms) es"
    and "find_socket i st = Some socket"
    and "held_userId socket = Some u"
  shows "u \<in> fst ` set (presenceCounts st) \<and> 1 \<le> get_or_0 (presenceCounts st) u"
proof -
  have c: "consistent st" unfolding assms(1) by (rule consistent_reachable)
  from assms(2) have s: "socket \<in> set (sockets st)" by (simp add: find_socket_SomeD)
  from consistent_holder_positive [OF c s assms(3)]
  have 1: "1 \<le> get_or_0 (presenceCounts st) u" .
  from c have "\<forall>kc\<in>set (presenceCounts st). 1 \<le> snd kc" by (simp add: consistent_def)
  from present_iff_positive [OF this, of u] 1 show ?thesis by simp
qed

text \<open>
  Claim C10. Unless the message exists, the requesting connection has an attached
  user and that user's \<open>_id\<close> equals the message's \<open>userId\<close>, \<open>delete_message\<close> and
  \<open>edit_message\<close> leave the whole state as it was: the message store is unchanged and
  nothing is emitted.
\<close>

theorem message_owner_guard:
  assumes "\<not> (\<exists>msg user. findOne [(''_id'', msgId)] (messages st) = Some msg
                \<and> data_user socket = Some user
                \<and> get_field user ''_id'' = get_field msg ''userId'')"
  shows "on_delete_message socket msgId st = st
       \<and> on_edit_message socket msgId newText st = st"
  using assms
  by (auto simp: on_delete_message_def on_edit_message_def split: option.splits)


section \<open>What the payloads carry\<close>

lemma public_online_users_getOnline [simp]:
  "public_online_users (Emit tg ev (Users (getOnlineUsersPublic st)))"
  by (auto simp: public_online_users_def list_all_iff dest: getOnlineUsersPublic_no_password)

lemma public_online_users_other [simp]:
  "ev \<noteq> ''online_users'' \<Longrightarrow> public_online_users (Emit tg ev pl)"
  by (simp add: public_online_users_def)

lemma room_users_only_public:
  "room_users_only out \<Longrightarrow> list_all public_online_users out"
  by (induction out)
     (auto simp: room_users_only_def public_online_users_def split: emission.splits target.splits)

text \<open>
  After any event in any state, every \<open>online_users\<close> emission carries profiles without
  a \<open>password\<close> property.
\<close>

lemma online_users_payloads_public:
  "list_all public_online_users (outbox (step st e))"
proof (cases e)
  case (Connect i)
  then show ?thesis
    by (simp add: step_def on_connection_def split: option.splits)
next
  case (Join i p)
  show ?thesis
  proof (cases "find_socket i st")
    case None
    with Join show ?thesis by (simp add: step_dead)
  next
    case (Some socket)
    show ?thesis
    proof (cases "findOne [(''_id'', userId p)] (users st)")
      case None
      with Join Some show ?thesis by (simp add: step_Join on_join_def)
    next
      case found: (Some user)
      let ?st0 = "st\<lparr>outbox := []\<rparr>"
      let ?st1 = "set_socket (sid socket) (\<lambda>s. s\<lparr>data_user := Some user\<rparr>) ?st0"
      from found have found0: "findOne [(''_id'', userId p)] (users ?st0) = Some user" by simp
      from on_join_outbox [OF found0, of socket]
      obtain new where new: "outbox (on_join socket p ?st0) =
          outbox (join_presence (sid socket) socket (userId p) ?st1) @ new"
        and ro: "room_users_only new" by blast
      have "list_all public_online_users
              (outbox (join_presence (sid socket) socket (userId p) ?st1))"
      proof (cases "held_userId socket = Some (js_String (userId p))")
        case True
        then show ?thesis by (simp add: join_presence_same)
      next
        case False
        from join_presence_outbox [OF False, of "sid socket" ?st1]
        show ?thesis by auto
      qed
      with new room_users_only_public [OF ro] Join Some show ?thesis
        by (simp add: step_Join)
    qed
  qed
next
  case (Disconnect i)
  then show ?thesis
    by (cases "find_socket i st")
       (simp_all add: step_dead step_Disconnect on_disconnect_outbox split: option.splits)
next
  case GraceElapsed
  then show ?thesis
    by (simp add: step_def on_grace_elapsed_def split: list.splits)
next
  case (DeleteMessage i m)
  then show ?thesis
    by (simp add: step_def on_delete_message_def split: option.splits)
next
  case (EditMessage i m t)
  then show ?thesis
    by (simp add: step_def on_edit_message_def Let_def split: option.splits)
qed


section \<open>The claims on concrete runs\<close>

text \<open>
  Claim C1: every profile in an emitted \<open>online_users\<close> or \<open>room_users\<close> payload is
  without the stored \<open>password\<close> field. It holds of \<open>online_users\<close>, whose payload is
  built by \<open>getOnlineUsersPublic\<close> (\<open>online_users_payloads_public\<close>), and fails on the
  code for \<open>room_users\<close>, whose payload is built by \<open>getUniqueUsers\<close> from
  \<open>socket.data.user\<close>, the record as \<open>findOne\<close> returned it: when Alice joins
  \<open>general\<close>, the payload sent to the room holds her stored password hash.
\<close>

theorem room_users_carries_password:
  "outbox (step ex_connected (Join ''s1'' (ex_join ''u1'' ''general'')))
     = [Emit ToAll ''online_users'' (Users [without_password ex_alice_online]),
        Emit (ToRoom (JStr ''general'')) ''room_users'' (Users [ex_alice])]
   \<and> get_field ex_alice ''password'' = JStr ''$2a$10$hashA''
   \<and> get_field (without_password ex_alice_online) ''password'' = JUndefined"
  by code_simp

text \<open>
  Claim C2 as stated fails: with Alice online on one connection, a second connection that
  joins as Alice takes her count from 1 to 2; the list is broadcast to all connections
  although no count went from 0 to 1 or from 1 to 0.
\<close>

theorem online_broadcast_without_crossing:
  "get_or_0 (presenceCounts ex_second_tab) ''u1'' = 1
   \<and> get_or_0 (presenceCounts (step ex_second_tab (Join ''s2'' (ex_join ''u1'' ''general'')))) ''u1'' = 2
   \<and> broadcast_online (step ex_second_tab (Join ''s2'' (ex_join ''u1'' ''general'')))
   \<and> \<not> crossing (presenceCounts ex_second_tab)
          (presenceCounts (step ex_second_tab (Join ''s2'' (ex_join ''u1'' ''general''))))"
  by code_simp

text \<open>
  The first join of a user (count 0 to 1) and the disconnect of her only connection
  (count 1 to 0) both broadcast.
\<close>

theorem online_broadcast_iff_attachment_changes_witness:
  "crossing (presenceCounts ex_connected)
     (presenceCounts (step ex_connected (Join ''s1'' (ex_join ''u1'' ''general''))))
   \<and> broadcast_online (step ex_connected (Join ''s1'' (ex_join ''u1'' ''general'')))
   \<and> crossing (presenceCounts ex_one_tab) (presenceCounts (step ex_one_tab (Disconnect ''s1'')))
   \<and> broadcast_online (step ex_one_tab (Disconnect ''s1''))"
proof -
  have j: "crossing (presenceCounts ex_connected)
     (presenceCounts (step ex_connected (Join ''s1'' (ex_join ''u1'' ''general''))))"
    by code_simp
  have d: "crossing (presenceCounts ex_one_tab) (presenceCounts (step ex_one_tab (Disconnect ''s1'')))"
    by code_simp
  from j online_broadcast_iff_attachment_changes
         [of ex_connected "''s1''" "ex_join ''u1'' ''general''"]
  have "broadcast_online (step ex_connected (Join ''s1'' (ex_join ''u1'' ''general'')))"
    by blast
  moreover from d online_broadcast_iff_attachment_changes [of ex_one_tab "''s1''"]
  have "broadcast_online (step ex_one_tab (Disconnect ''s1''))"
    by blast
  ultimately show ?thesis using j d by blast
qed

text \<open>
  Alice has two connections; the second one joins again, as Bob.
\<close>

theorem join_switches_user_witness:
  "get_or_0 (presenceCounts ex_two_tabs) ''u1'' = 2
   \<and> get_or_0 (presenceCounts (step ex_two_tabs (Join ''s2'' (ex_join ''u2'' ''random'')))) ''u1'' = 1
   \<and> get_or_0 (presenceCounts ex_two_tabs) ''u2'' = 0
   \<and> get_or_0 (presenceCounts (step ex_two_tabs (Join ''s2'' (ex_join ''u2'' ''random'')))) ''u2'' = 1
   \<and> ops (step ex_two_tabs (Join ''s2'' (ex_join ''u2'' ''random'')))
       = ops ex_two_tabs @ [Detach ''u1'', Attach ''u2'']"
proof -
  let ?socket = "the (find_socket ''s2'' ex_two_tabs)"
  have r: "ex_two_tabs = run (init ex_users [ex_msg])
             [Connect ''s1'', Join ''s1'' (ex_join ''u1'' ''general''),
              Connect ''s2'', Join ''s2'' (ex_join ''u1'' ''general'')]"
    by (simp add: ex_two_tabs_def ex_start_def)
  have "find_socket ''s2'' ex_two_tabs \<noteq> None" by code_simp
  then have live: "find_socket ''s2'' ex_two_tabs = Some ?socket" by simp
  have held: "held_userId ?socket = Some ''u1''" by code_simp
  have found: "findOne [(''_id'', userId (ex_join ''u2'' ''random''))] (users ex_two_tabs)
      = Some ex_bob" by code_simp
  have b: "js_String (userId (ex_join ''u2'' ''random'')) = ''u2''" by code_simp
  have ab: "''u1'' \<noteq> ''u2''" by simp
  have c1: "get_or_0 (presenceCounts ex_two_tabs) ''u1'' = 2" by code_simp
  have c2: "get_or_0 (presenceCounts ex_two_tabs) ''u2'' = 0" by code_simp
  from join_switches_user [OF r live held found b ab] c1 c2 show ?thesis by simp
qed

text \<open>
  Alice's connection joins again as Alice, into another channel: \<open>room_users\<close> goes to
  the room left and to the room joined, and that is all.
\<close>

theorem rejoin_same_user_witness:
  "presenceCounts (step ex_one_tab (Join ''s1'' (ex_join ''u1'' ''random''))) = [(''u1'', 1)]
   \<and> presenceCounts ex_one_tab = [(''u1'', 1)]
   \<and> users (step ex_one_tab (Join ''s1'' (ex_join ''u1'' ''random''))) = users ex_one_tab
   \<and> \<not> broadcast_online (step ex_one_tab (Join ''s1'' (ex_join ''u1'' ''random'')))
   \<and> room_users_only (outbox (step ex_one_tab (Join ''s1'' (ex_join ''u1'' ''random''))))
   \<and> length (outbox (step ex_one_tab (Join ''s1'' (ex_join ''u1'' ''random'')))) = 2"
proof -
  let ?socket = "the (find_socket ''s1'' ex_one_tab)"
  have "find_socket ''s1'' ex_one_tab \<noteq> None" by code_simp
  then have live: "find_socket ''s1'' ex_one_tab = Some ?socket" by simp
  have held: "held_userId ?socket = Some (js_String (userId (ex_join ''u1'' ''random'')))"
    by code_simp
  have found: "findOne [(''_id'', userId (ex_join ''u1'' ''random''))] (users ex_one_tab)
      = Some ex_alice_online" by code_simp
  have pc: "presenceCounts ex_one_tab = [(''u1'', 1)]" by code_simp
  have n: "length (outbox (step ex_one_tab (Join ''s1'' (ex_join ''u1'' ''random'')))) = 2"
    by code_simp
  from rejoin_same_user [OF live held found] pc n show ?thesis by simp
qed

text \<open>A join as a user id that the store does not have.\<close>

theorem join_unknown_user_ignored_witness:
  "findOne [(''_id'', userId (ex_join ''nobody'' ''general''))] (users ex_one_tab) = None
   \<and> step ex_one_tab (Join ''s1'' (ex_join ''nobody'' ''general'')) = ex_one_tab\<lparr>outbox := []\<rparr>"
proof -
  have n: "findOne [(''_id'', userId (ex_join ''nobody'' ''general''))] (users ex_one_tab) = None"
    by code_simp
  from join_unknown_user_ignored [OF n] n show ?thesis by simp
qed

text \<open>Bob's connection asks to delete, and to edit, a message of Alice's.\<close>

theorem message_owner_guard_witness:
  "findOne [(''_id'', JStr ''m1'')] (messages ex_start) = Some ex_msg
   \<and> get_field ex_msg ''userId'' = JStr ''u1''
   \<and> get_field ex_bob ''_id'' = JStr ''u2''
   \<and> on_delete_message (ex_conn ''s2'' (Some ex_bob) []) (JStr ''m1'') ex_start = ex_start
   \<and> on_edit_message (ex_conn ''s2'' (Some ex_bob) []) (JStr ''m1'') (JStr ''edited'') ex_start
       = ex_start"
proof -
  have f: "findOne [(''_id'', JStr ''m1'')] (messages ex_start) = Some ex_msg" by code_simp
  have m: "get_field ex_msg ''userId'' = JStr ''u1''" by code_simp
  have b: "get_field ex_bob ''_id'' = JStr ''u2''" by code_simp
  have u: "data_user (ex_conn ''s2'' (Some ex_bob) []) = Some ex_bob" by (simp add: ex_conn_def)
  have h: "\<not> (\<exists>msg user. findOne [(''_id'', JStr ''m1'')] (messages ex_start) = Some msg
                \<and> data_user (ex_conn ''s2'' (Some ex_bob) []) = Some user
                \<and> get_field user ''_id'' = get_field msg ''userId'')"
    by (simp add: f m b u)
  from message_owner_guard [OF h] f m b show ?thesis by simp
qed

end
